theory Spec2Isabelle
  imports Main
begin

section \<open>User documents (models/User.js)\<close>

text \<open>
  The schema of \<^verbatim>\<open>models/User.js\<close>. \<^verbatim>\<open>toJSON\<close> deletes \<^verbatim>\<open>password\<close> and
  \<^verbatim>\<open>tokens\<close> from the object that is sent, so the fields that survive form the base
  record and the two deleted ones extend it. Dates are milliseconds since the epoch.
  A token sub-document is modelled by its \<^verbatim>\<open>token\<close> string. \<open>version\<close> is the
  version key \<^verbatim>\<open>__v\<close> that mongoose keeps in every document.
\<close>

datatype role = Admin | BaseCommander | LogisticsOfficer

record user_json =
  uid :: nat
  username :: string
  email :: string
  fullName :: string
  role :: role
  assignedBase :: "string option"
  active :: bool
  lastLogin :: "int option"
  createdAt :: int
  updatedAt :: int
  version :: nat

record user = user_json +
  password :: string
  tokens :: "string list"

definition toJSON :: "user \<Rightarrow> user_json" where
  "toJSON u = user_json.truncate u"

fun role_name :: "role \<Rightarrow> string" where
  "role_name Admin = ''Admin''"
| "role_name BaseCommander = ''BaseCommander''"
| "role_name LogisticsOfficer = ''LogisticsOfficer''"

section \<open>Activity log entries, the store, the libraries\<close>

text \<open>
  An ActivityLog document as the routes of \<^verbatim>\<open>routes/auth.js\<close> build it. The
  \<^verbatim>\<open>details\<close> object is a list of key/value pairs; an \<^verbatim>\<open>undefined\<close> value is
  \<open>None\<close>.
\<close>

record activity_log =
  al_user :: "nat option"
  al_username :: string
  al_action :: string
  al_resourceType :: string
  al_resourceId :: "nat option"
  al_details :: "(string \<times> string option) list"
  al_ipAddress :: string
  al_userAgent :: string

record db =
  users :: "user list"
  activityLogs :: "activity_log list"

text \<open>
  What the routes call and do not define: \<^verbatim>\<open>bcrypt.compare\<close> (\<open>None\<close> when it
  throws), \<^verbatim>\<open>bcrypt.hash\<close>, \<^verbatim>\<open>jwt.sign\<close> on the user id, the clock that the
  \<^verbatim>\<open>timestamps\<close> option of the schema reads, and the outcome of saving an ActivityLog
  document (\<open>Some msg\<close> when the write throws an error with message \<open>msg\<close>). Saving a
  user document that passes the schema's validation is taken to succeed.
\<close>

record env =
  bcrypt_compare :: "string \<Rightarrow> string \<Rightarrow> bool option"
  bcrypt_hash :: "string \<Rightarrow> string"
  jwt_sign :: "nat \<Rightarrow> string"
  now :: int
  log_error :: "activity_log \<Rightarrow> string option"

datatype error = Error string

fun message :: "error \<Rightarrow> string" where
  "message (Error m) = m"

datatype body =
    LoginBody user_json string string
  | ErrorMessageBody string string
  | ErrorBody string
  | MessageBody string

record response =
  status :: nat
  body :: body

record request =
  body_username :: "string option"
  body_password :: "string option"
  ip :: string
  userAgent :: string

text \<open>JavaScript truthiness of a string that may be absent: the empty string is falsy.\<close>

fun truthy :: "string option \<Rightarrow> bool" where
  "truthy None = False"
| "truthy (Some s) = (s \<noteq> [])"

subsection \<open>Saving\<close>

definition findOne :: "db \<Rightarrow> string \<Rightarrow> user option" where
  "findOne d name = find (\<lambda>u. username u = name) (users d)"

definition findById :: "db \<Rightarrow> nat \<Rightarrow> user option" where
  "findById d i = find (\<lambda>u. uid u = i) (users d)"

text \<open>
  \<^verbatim>\<open>user.save()\<close> on a stored document: the \<^verbatim>\<open>pre('save')\<close> hook hashes the
  password when it was modified; mongoose increments the version key when the
  \<^verbatim>\<open>tokens\<close> array was replaced by a different one; and \<^verbatim>\<open>timestamps: true\<close> sets
  \<^verbatim>\<open>updatedAt\<close> to the current time when the document was modified at all. A path is
  modified when its value differs from the stored one.
\<close>

definition pre_save :: "env \<Rightarrow> user \<Rightarrow> user \<Rightarrow> user" where
  "pre_save e stored u =
     (let u1 = (if password u \<noteq> password stored
                then u\<lparr>password := bcrypt_hash e (password u)\<rparr> else u);
          u2 = (if tokens u \<noteq> tokens stored
                then u1\<lparr>version := version u + 1\<rparr> else u1)
      in if u \<noteq> stored then u2\<lparr>updatedAt := now e\<rparr> else u2)"

definition save :: "env \<Rightarrow> db \<Rightarrow> user \<Rightarrow> db" where
  "save e d u = d\<lparr>users := map (\<lambda>v. if uid v = uid u then pre_save e v u else v) (users d)\<rparr>"

definition saved :: "env \<Rightarrow> db \<Rightarrow> user \<Rightarrow> user" where
  "saved e d u = (case findById d (uid u) of None \<Rightarrow> u | Some v \<Rightarrow> pre_save e v u)"

definition save_log :: "env \<Rightarrow> db \<Rightarrow> activity_log \<Rightarrow> error + db" where
  "save_log e d entry =
     (case log_error e entry of
        Some msg \<Rightarrow> Inl (Error msg)
      | None \<Rightarrow> Inr (d\<lparr>activityLogs := activityLogs d @ [entry]\<rparr>))"

subsection \<open>\<^verbatim>\<open>generateAuthToken\<close> and \<^verbatim>\<open>findByCredentials\<close>\<close>

definition generateAuthToken :: "env \<Rightarrow> db \<Rightarrow> user \<Rightarrow> string \<times> user \<times> db" where
  "generateAuthToken e d u =
     (let token = jwt_sign e (uid u);
          u' = u\<lparr>tokens := tokens u @ [token]\<rparr>
      in (token, saved e d u', save e d u'))"

definition findByCredentials :: "env \<Rightarrow> db \<Rightarrow> string \<Rightarrow> string \<Rightarrow> error + user" where
  "findByCredentials e d name pw =
     (case findOne d name of
        None \<Rightarrow> Inl (Error ''Invalid username or password'')
      | Some u \<Rightarrow>
          if \<not> active u then Inl (Error ''User account is inactive'')
          else
            let isMatch = (case bcrypt_compare e pw (password u) of
                             Some b \<Rightarrow> b
                           | None \<Rightarrow> pw = password u)
            in if \<not> isMatch then Inl (Error ''Invalid username or password'')
               else Inr u)"

section \<open>The authentication router (routes/auth.js)\<close>

subsection \<open>POST /api/auth/login\<close>

definition login_log :: "user \<Rightarrow> request \<Rightarrow> activity_log" where
  "login_log u req =
     \<lparr>al_user = Some (uid u), al_username = username u, al_action = ''Login'',
      al_resourceType = ''User'', al_resourceId = Some (uid u),
      al_details = [(''role'', Some (role_name (role u))), (''assignedBase'', assignedBase u)],
      al_ipAddress = ip req, al_userAgent = userAgent req\<rparr>"

definition failed_login_log :: "string \<Rightarrow> error \<Rightarrow> request \<Rightarrow> activity_log" where
  "failed_login_log name err req =
     \<lparr>al_user = None, al_username = name, al_action = ''Failed Login'',
      al_resourceType = ''User'', al_resourceId = None,
      al_details = [(''error'', Some (message err)), (''ipAddress'', Some (ip req))],
      al_ipAddress = ip req, al_userAgent = userAgent req\<rparr>"

text \<open>The body of the \<^verbatim>\<open>try\<close> block once username and password are known to be truthy.\<close>

definition login_try :: "env \<Rightarrow> db \<Rightarrow> string \<Rightarrow> string \<Rightarrow> request \<Rightarrow> error + (response \<times> db)" where
  "login_try e d name pw req =
     (case findOne d name of
        None \<Rightarrow> Inl (Error ''Invalid username or password'')
      | Some userCheck \<Rightarrow>
          (case findByCredentials e d name pw of
             Inl err \<Rightarrow> Inl err
           | Inr u \<Rightarrow>
               (case generateAuthToken e d u of
                  (token, u', d1) \<Rightarrow>
                    let d2 = (case save_log e d1 (login_log u' req) of
                                Inl logError \<Rightarrow> d1
                              | Inr d' \<Rightarrow> d')
                    in Inr (\<lparr>status = 200,
                             body = LoginBody (toJSON u') token ''Login successful''\<rparr>, d2))))"

definition login :: "env \<Rightarrow> db \<Rightarrow> request \<Rightarrow> response \<times> db" where
  "login e d req =
     (case (body_username req, body_password req) of
        (Some name, Some pw) \<Rightarrow>
          if name = [] \<or> pw = []
          then (\<lparr>status = 400,
                 body = ErrorMessageBody ''Login failed''
                          ''Username and password are required''\<rparr>, d)
          else
            (case login_try e d name pw req of
               Inr r \<Rightarrow> r
             | Inl err \<Rightarrow>
                 let d1 = (if truthy (body_username req)
                           then (case save_log e d (failed_login_log name err req) of
                                   Inl logError \<Rightarrow> d
                                 | Inr d' \<Rightarrow> d')
                           else d)
                 in (\<lparr>status = 401,
                      body = ErrorMessageBody ''Authentication failed''
                               ''Invalid username or password''\<rparr>, d1))
      | _ \<Rightarrow>
          (\<lparr>status = 400,
            body = ErrorMessageBody ''Login failed''
                     ''Username and password are required''\<rparr>, d))"

subsection \<open>POST /api/auth/logout and /api/auth/logout-all\<close>

text \<open>
  Both handlers run after the \<^verbatim>\<open>auth()\<close> middleware, which leaves the caller's stored
  document in \<^verbatim>\<open>req.user\<close> and the presented token in \<^verbatim>\<open>req.token\<close>.
\<close>

definition logout_log :: "user \<Rightarrow> request \<Rightarrow> activity_log" where
  "logout_log u req =
     \<lparr>al_user = Some (uid u), al_username = username u, al_action = ''Logout'',
      al_resourceType = ''User'', al_resourceId = Some (uid u),
      al_details = [(''role'', Some (role_name (role u))), (''assignedBase'', assignedBase u)],
      al_ipAddress = ip req, al_userAgent = userAgent req\<rparr>"

definition logout :: "env \<Rightarrow> db \<Rightarrow> user \<Rightarrow> string \<Rightarrow> request \<Rightarrow> response \<times> db" where
  "logout e d req_user req_token req =
     (let u = req_user\<lparr>tokens := filter (\<lambda>token. token \<noteq> req_token) (tokens req_user)\<rparr>;
          u' = saved e d u;
          d1 = save e d u
      in case save_log e d1 (logout_log u' req) of
           Inl err \<Rightarrow> (\<lparr>status = 500, body = ErrorBody (message err)\<rparr>, d1)
         | Inr d2 \<Rightarrow> (\<lparr>status = 200, body = MessageBody ''Logged out successfully''\<rparr>, d2))"

definition logout_all_log :: "user \<Rightarrow> request \<Rightarrow> activity_log" where
  "logout_all_log u req =
     \<lparr>al_user = Some (uid u), al_username = username u, al_action = ''Logout'',
      al_resourceType = ''User'', al_resourceId = Some (uid u),
      al_details = [(''allDevices'', Some ''true''), (''role'', Some (role_name (role u))),
                    (''assignedBase'', assignedBase u)],
      al_ipAddress = ip req, al_userAgent = userAgent req\<rparr>"

definition logout_all :: "env \<Rightarrow> db \<Rightarrow> user \<Rightarrow> request \<Rightarrow> response \<times> db" where
  "logout_all e d req_user req =
     (let u = req_user\<lparr>tokens := []\<rparr>;
          u' = saved e d u;
          d1 = save e d u
      in case save_log e d1 (logout_all_log u' req) of
           Inl err \<Rightarrow> (\<lparr>status = 500, body = ErrorBody (message err)\<rparr>, d1)
         | Inr d2 \<Rightarrow>
             (\<lparr>status = 200, body = MessageBody ''Logged out from all devices successfully''\<rparr>,
              d2))"

subsection \<open>PUT /api/auth/change-password\<close>

definition password_log :: "user \<Rightarrow> request \<Rightarrow> activity_log" where
  "password_log u req =
     \<lparr>al_user = Some (uid u), al_username = username u, al_action = ''Update'',
      al_resourceType = ''User'', al_resourceId = Some (uid u),
      al_details = [(''passwordChanged'', Some ''true'')],
      al_ipAddress = ip req, al_userAgent = userAgent req\<rparr>"

text \<open>
  The schema requires \<^verbatim>\<open>password\<close>, and a required string must not be empty: saving
  the document with an empty new password is rejected by the validation that runs before
  the \<^verbatim>\<open>pre('save')\<close> hook.
\<close>

definition validate_password :: "string \<Rightarrow> error + unit" where
  "validate_password pw =
     (if pw = [] then Inl (Error ''User validation failed: password: Path `password` is required.'')
      else Inr ())"

definition change_password ::
  "env \<Rightarrow> db \<Rightarrow> user \<Rightarrow> string \<Rightarrow> string \<Rightarrow> request \<Rightarrow> response \<times> db" where
  "change_password e d req_user currentPassword newPassword req =
     (case findByCredentials e d (username req_user) currentPassword of
        Inl err \<Rightarrow>
          (\<lparr>status = 400,
            body = ErrorMessageBody ''Password change failed'' (message err)\<rparr>, d)
      | Inr user \<Rightarrow>
          (case validate_password newPassword of
             Inl err \<Rightarrow>
               (\<lparr>status = 400,
                 body = ErrorMessageBody ''Password change failed'' (message err)\<rparr>, d)
           | Inr _ \<Rightarrow>
               let u = user\<lparr>password := newPassword\<rparr>;
                   u' = saved e d u;
                   d1 = save e d u
               in case save_log e d1 (password_log u' req) of
                    Inl err \<Rightarrow>
                      (\<lparr>status = 400,
                        body = ErrorMessageBody ''Password change failed'' (message err)\<rparr>, d1)
                  | Inr d2 \<Rightarrow>
                      (\<lparr>status = 200, body = MessageBody ''Password changed successfully''\<rparr>,
                       d2)))"

text \<open>
  Modelled from the spec: the \<^verbatim>\<open>auth()\<close> middleware (\<^verbatim>\<open>middleware/auth.js\<close>) is not
  among the sources. The specification's \<^verbatim>\<open>resolveSession(token)\<close> "finds the user
  whose live token set contains it" and fails with \<^verbatim>\<open>Unauthenticated\<close> if none does.
\<close>

definition resolveSession :: "db \<Rightarrow> string \<Rightarrow> user option" where
  "resolveSession d token = find (\<lambda>u. token \<in> set (tokens u)) (users d)"

section \<open>Domain records read by the dashboard router\<close>

text \<open>
  The dashboard router is the second module in \<^verbatim>\<open>routes/auth.js\<close> as given (it is
  mounted at \<^verbatim>\<open>/api/dashboard\<close> by \<^verbatim>\<open>server.js\<close>). The models it reads are not
  among the sources; the records hold the fields that the route filters on, sorts by and
  selects. Quantities are integers. For the four activity
  collections the fields named in \<^verbatim>\<open>.select(...)\<close> form the base record and the
  remaining ones extend it, so that the projection is the record truncation.
\<close>

record asset =
  asset_name :: string
  asset_type :: string
  asset_base :: string
  openingBalance :: int
  closingBalance :: int
  purchases :: int
  transferIn :: int
  transferOut :: int
  assigned :: int
  expended :: int
  available :: int
  asset_createdAt :: int

record transfer_view =
  t_assetName :: string
  fromBase :: string
  toBase :: string
  t_quantity :: int
  t_status :: string
  t_createdAt :: int

record transfer = transfer_view +
  t_asset :: nat

record purchase_view =
  p_assetName :: string
  p_base :: string
  p_quantity :: int
  p_status :: string
  purchaseDate :: int

record purchase = purchase_view +
  p_assetType :: string
  p_createdAt :: int

record assignment_view =
  as_assetName :: string
  as_base :: string
  as_quantity :: int
  assignedTo :: string
  as_status :: string
  startDate :: int

record assignment = assignment_view +
  as_assetType :: string
  as_createdAt :: int

record expenditure_view =
  ex_assetName :: string
  ex_base :: string
  ex_quantity :: int
  reason :: string
  expenditureDate :: int

record expenditure = expenditure_view +
  ex_assetType :: string
  ex_createdAt :: int

record store =
  asset_docs :: "asset list"
  transfer_docs :: "transfer list"
  purchase_docs :: "purchase list"
  assignment_docs :: "assignment list"
  expenditure_docs :: "expenditure list"

record query =
  q_base :: "string option"
  q_assetType :: "string option"
  q_startDate :: "string option"
  q_endDate :: "string option"

datatype failure = Forbidden | ServerError string

subsection \<open>Filters\<close>

text \<open>
  A filter value that the code takes from \<^verbatim>\<open>req.user.assignedBase\<close> may be
  \<^verbatim>\<open>undefined\<close> (\<open>None\<close>); it then equals no stored base. A key that the code does
  not set is an outer \<open>None\<close>.
\<close>

record asset_match =
  m_base :: "string option option"
  m_type :: "string option"

text \<open>
  \<^verbatim>\<open>dateMatch.createdAt\<close>: each bound is absent or the result of \<^verbatim>\<open>new Date(s)\<close>,
  which is \<open>None\<close> for an Invalid Date. \<open>parse\<close> stands for \<^verbatim>\<open>new Date\<close> on a
  string.
\<close>

record createdAt_match =
  gte :: "int option option"
  lte :: "int option option"

definition dateMatch :: "(string \<Rightarrow> int option) \<Rightarrow> query \<Rightarrow> createdAt_match option" where
  "dateMatch parse q =
     (if truthy (q_startDate q) \<or> truthy (q_endDate q)
      then Some \<lparr>gte = (case q_startDate q of
                           Some s \<Rightarrow> if s \<noteq> [] then Some (parse s) else None
                         | None \<Rightarrow> None),
                  lte = (case q_endDate q of
                           Some s \<Rightarrow> if s \<noteq> [] then Some (parse s) else None
                         | None \<Rightarrow> None)\<rparr>
      else None)"

definition assetMatch :: "user \<Rightarrow> query \<Rightarrow> asset_match" where
  "assetMatch u q =
     (let match = \<lparr>m_base = (if truthy (q_base q) then Some (q_base q) else None),
                   m_type = (if truthy (q_assetType q) then q_assetType q else None)\<rparr>
      in if role u = BaseCommander then match\<lparr>m_base := Some (assignedBase u)\<rparr> else match)"

definition asset_matches :: "asset_match \<Rightarrow> asset \<Rightarrow> bool" where
  "asset_matches m a =
     ((case m_base m of None \<Rightarrow> True | Some v \<Rightarrow> v = Some (asset_base a)) \<and>
      (case m_type m of None \<Rightarrow> True | Some t \<Rightarrow> asset_type a = t))"

text \<open>A query with an Invalid Date cannot be cast to the schema's Date and is rejected.\<close>

definition castable :: "createdAt_match option \<Rightarrow> bool" where
  "castable dm = (case dm of None \<Rightarrow> True | Some c \<Rightarrow> gte c \<noteq> Some None \<and> lte c \<noteq> Some None)"

definition date_matches :: "createdAt_match option \<Rightarrow> int \<Rightarrow> bool" where
  "date_matches dm t =
     (case dm of
        None \<Rightarrow> True
      | Some c \<Rightarrow>
          (case gte c of Some (Some lo) \<Rightarrow> lo \<le> t | _ \<Rightarrow> True) \<and>
          (case lte c of Some (Some hi) \<Rightarrow> t \<le> hi | _ \<Rightarrow> True))"

record transfer_match =
  tm_createdAt :: "createdAt_match option"
  tm_or :: "string option option"

definition transferMatch :: "(string \<Rightarrow> int option) \<Rightarrow> user \<Rightarrow> query \<Rightarrow> transfer_match" where
  "transferMatch parse u q =
     \<lparr>tm_createdAt = dateMatch parse q,
      tm_or = (if truthy (q_base q) then Some (q_base q)
               else if role u = BaseCommander then Some (assignedBase u)
               else None)\<rparr>"

definition transfer_matches :: "transfer_match \<Rightarrow> transfer \<Rightarrow> bool" where
  "transfer_matches m t =
     (date_matches (tm_createdAt m) (t_createdAt t) \<and>
      (case tm_or m of
         None \<Rightarrow> True
       | Some v \<Rightarrow> v = Some (fromBase t) \<or> v = Some (toBase t)))"

record record_match =
  rm_createdAt :: "createdAt_match option"
  rm_base :: "string option option"
  rm_assetType :: "string option"

definition purchaseMatch :: "(string \<Rightarrow> int option) \<Rightarrow> user \<Rightarrow> query \<Rightarrow> record_match" where
  "purchaseMatch parse u q =
     \<lparr>rm_createdAt = dateMatch parse q,
      rm_base = (if truthy (q_base q) then Some (q_base q)
                 else if role u = BaseCommander then Some (assignedBase u)
                 else None),
      rm_assetType = (if truthy (q_assetType q) then q_assetType q else None)\<rparr>"

definition assignmentMatch :: "(string \<Rightarrow> int option) \<Rightarrow> user \<Rightarrow> query \<Rightarrow> record_match" where
  "assignmentMatch parse u q =
     \<lparr>rm_createdAt = dateMatch parse q,
      rm_base = (if truthy (q_base q) then Some (q_base q)
                 else if role u = BaseCommander then Some (assignedBase u)
                 else None),
      rm_assetType = (if truthy (q_assetType q) then q_assetType q else None)\<rparr>"

definition expenditureMatch :: "(string \<Rightarrow> int option) \<Rightarrow> user \<Rightarrow> query \<Rightarrow> record_match" where
  "expenditureMatch parse u q =
     \<lparr>rm_createdAt = dateMatch parse q,
      rm_base = (if truthy (q_base q) then Some (q_base q)
                 else if role u = BaseCommander then Some (assignedBase u)
                 else None),
      rm_assetType = (if truthy (q_assetType q) then q_assetType q else None)\<rparr>"

definition record_matches :: "record_match \<Rightarrow> int \<Rightarrow> string \<Rightarrow> string \<Rightarrow> bool" where
  "record_matches m created base type =
     (date_matches (rm_createdAt m) created \<and>
      (case rm_base m of None \<Rightarrow> True | Some v \<Rightarrow> v = Some base) \<and>
      (case rm_assetType m of None \<Rightarrow> True | Some t \<Rightarrow> type = t))"

subsection \<open>JavaScript numbers\<close>

text \<open>
  The totals are JavaScript numbers, that is IEEE 754 doubles, and \<^verbatim>\<open>+=\<close> rounds. The
  quantities of a document are integers (the specification's data model), so every value
  that arises is an integer-valued double, an infinity or NaN. \<open>Finite n\<close> is the double
  of value \<open>n\<close>; \<open>NonFinite\<close> stands for \<^verbatim>\<open>Infinity\<close>, \<^verbatim>\<open>-Infinity\<close> and
  \<^verbatim>\<open>NaN\<close>, which addition never leaves and which the JSON response all shows as
  \<^verbatim>\<open>null\<close>.

  \<open>to_double n\<close> is the double nearest to the integer \<open>n\<close>, ties to the even
  significand: integers up to \<open>2^53\<close> in magnitude are doubles; beyond, the doubles are
  the multiples of the unit in the last place \<open>ulp\<close>, the power of two that leaves a
  significand of 53 bits; a result of magnitude \<open>2^1024\<close> overflows.
\<close>

datatype number = Finite int | NonFinite

function ulp :: "nat \<Rightarrow> nat \<Rightarrow> nat" where
  "ulp m u = (if u = 0 \<or> m < 2 ^ 53 * u then u else ulp m (2 * u))"
  by pat_completeness auto
termination
  by (relation "measure (\<lambda>(m, u). Suc m - 2 ^ 53 * u)") auto

declare ulp.simps [simp del]

definition to_double :: "int \<Rightarrow> number" where
  "to_double n =
     (let m = nat \<bar>n\<bar> in
      if m \<le> 2 ^ 53 then Finite n
      else
        let u = ulp m 1; q = m div u; r = m mod u;
            q' = (if 2 * r < u \<or> (2 * r = u \<and> even q) then q else q + 1)
        in if 2 ^ 1024 \<le> q' * u then NonFinite
           else Finite (sgn n * int (q' * u)))"

fun js_add :: "number \<Rightarrow> number \<Rightarrow> number" where
  "js_add (Finite a) (Finite b) = to_double (a + b)"
| "js_add _ _ = NonFinite"

subsection \<open>Summary and grouping\<close>

record summary =
  totalAssets :: number
  totalOpeningBalance :: number
  totalClosingBalance :: number
  totalPurchases :: number
  totalTransferIn :: number
  totalTransferOut :: number
  totalAssigned :: number
  totalExpended :: number
  totalAvailable :: number

record type_group =
  g_type :: string
  g_count :: number
  g_openingBalance :: number
  g_closingBalance :: number
  g_assigned :: number
  g_available :: number

text \<open>
  \<^verbatim>\<open>assetsByType\<close> is a plain object, modelled by the list of its own properties in
  insertion order. A plain object also inherits the properties of \<^verbatim>\<open>Object.prototype\<close>:
  for these names \<^verbatim>\<open>assetsByType[name]\<close> is truthy although no group was stored, so
  the handler creates no group, and its updates go to the inherited value, which
  \<^verbatim>\<open>Object.values\<close> does not list.
\<close>

definition Object_prototype :: "string list" where
  "Object_prototype =
     [''constructor'', ''__defineGetter__'', ''__defineSetter__'', ''hasOwnProperty'',
      ''__lookupGetter__'', ''__lookupSetter__'', ''isPrototypeOf'', ''propertyIsEnumerable'',
      ''toString'', ''valueOf'', ''__proto__'', ''toLocaleString'']"

definition has_property :: "(string \<times> type_group) list \<Rightarrow> string \<Rightarrow> bool" where
  "has_property obj key = (key \<in> set (map fst obj) \<or> key \<in> set Object_prototype)"

definition new_group :: "string \<Rightarrow> type_group" where
  "new_group t =
     \<lparr>g_type = t, g_count = Finite 0, g_openingBalance = Finite 0,
      g_closingBalance = Finite 0, g_assigned = Finite 0, g_available = Finite 0\<rparr>"

text \<open>Reading a quantity of a document gives the double nearest to it.\<close>

definition add_to_group :: "asset \<Rightarrow> type_group \<Rightarrow> type_group" where
  "add_to_group a g =
     g\<lparr>g_count := js_add (g_count g) (Finite 1),
       g_openingBalance := js_add (g_openingBalance g) (to_double (openingBalance a)),
       g_closingBalance := js_add (g_closingBalance g) (to_double (closingBalance a)),
       g_assigned := js_add (g_assigned g) (to_double (assigned a)),
       g_available := js_add (g_available g) (to_double (available a))\<rparr>"

definition update_group :: "asset \<Rightarrow> (string \<times> type_group) list \<Rightarrow> (string \<times> type_group) list" where
  "update_group a obj =
     map (\<lambda>(k, g). if k = asset_type a then (k, add_to_group a g) else (k, g)) obj"

definition add_to_summary :: "asset \<Rightarrow> summary \<Rightarrow> summary" where
  "add_to_summary a s =
     s\<lparr>totalOpeningBalance := js_add (totalOpeningBalance s) (to_double (openingBalance a)),
       totalClosingBalance := js_add (totalClosingBalance s) (to_double (closingBalance a)),
       totalPurchases := js_add (totalPurchases s) (to_double (purchases a)),
       totalTransferIn := js_add (totalTransferIn s) (to_double (transferIn a)),
       totalTransferOut := js_add (totalTransferOut s) (to_double (transferOut a)),
       totalAssigned := js_add (totalAssigned s) (to_double (assigned a)),
       totalExpended := js_add (totalExpended s) (to_double (expended a)),
       totalAvailable := js_add (totalAvailable s) (to_double (available a))\<rparr>"

text \<open>One turn of \<^verbatim>\<open>assets.forEach\<close>.\<close>

definition forEach_step ::
  "asset \<Rightarrow> summary \<times> (string \<times> type_group) list \<Rightarrow> summary \<times> (string \<times> type_group) list" where
  "forEach_step a acc =
     (case acc of
        (s, obj) \<Rightarrow>
          (add_to_summary a s,
           update_group a
             (if \<not> has_property obj (asset_type a)
              then obj @ [(asset_type a, new_group (asset_type a))]
              else obj)))"

text \<open>\<^verbatim>\<open>assets.length\<close> is exact: an array has fewer than \<open>2^32\<close> elements.\<close>

definition initial_summary :: "asset list \<Rightarrow> summary" where
  "initial_summary xs =
     \<lparr>totalAssets = Finite (int (length xs)), totalOpeningBalance = Finite 0,
      totalClosingBalance = Finite 0, totalPurchases = Finite 0, totalTransferIn = Finite 0,
      totalTransferOut = Finite 0, totalAssigned = Finite 0, totalExpended = Finite 0,
      totalAvailable = Finite 0\<rparr>"

definition calculate :: "asset list \<Rightarrow> summary \<times> (string \<times> type_group) list" where
  "calculate xs = fold forEach_step xs (initial_summary xs, [])"

text \<open>
  \<^verbatim>\<open>Object.values\<close> lists the own properties whose key is an array index (the canonical
  decimal string of an integer below \<open>2^32 - 1\<close>) first, in ascending order of the index,
  and then the other string keys in insertion order.
\<close>

definition is_digit :: "char \<Rightarrow> bool" where
  "is_digit c = (c \<in> set ''0123456789'')"

text \<open>The value of a decimal digit is its position among the ten digits.\<close>

definition digit_value :: "char \<Rightarrow> nat" where
  "digit_value c = length (takeWhile (\<lambda>d. d \<noteq> c) ''0123456789'')"

fun array_index :: "string \<Rightarrow> nat option" where
  "array_index [] = None"
| "array_index (c # cs) =
     (if \<not> list_all is_digit (c # cs) \<or> (c = CHR ''0'' \<and> cs \<noteq> []) then None
      else let n = foldl (\<lambda>acc d. 10 * acc + digit_value d) 0 (c # cs)
           in if n < 4294967295 then Some n else None)"

definition index_properties :: "(string \<times> type_group) list \<Rightarrow> (nat \<times> type_group) list" where
  "index_properties obj =
     List.map_filter (\<lambda>(k, g). map_option (\<lambda>i. (i, g)) (array_index k)) obj"

definition Object_values :: "(string \<times> type_group) list \<Rightarrow> type_group list" where
  "Object_values obj =
     map snd (sort_key fst (index_properties obj)) @
     map snd (filter (\<lambda>(k, g). array_index k = None) obj)"

subsection \<open>GET /api/dashboard\<close>

record dashboard =
  r_summary :: summary
  assetsByType :: "type_group list"
  recentTransfers :: "transfer_view list"
  recentPurchases :: "purchase_view list"
  recentAssignments :: "assignment_view list"
  recentExpenditures :: "expenditure_view list"

text \<open>\<^verbatim>\<open>.sort({field: -1}).limit(5)\<close>: descending by the field, the first five.\<close>

definition recent :: "('a \<Rightarrow> int) \<Rightarrow> 'a list \<Rightarrow> 'a list" where
  "recent field xs = take 5 (sort_key (\<lambda>x. - field x) xs)"

text \<open>The message of mongoose's cast error for the first query that carries the date.\<close>

definition cast_error :: string where
  \<open>cast_error =
     ''Cast to date failed for value "Invalid Date" (type Date) at path "createdAt" for model "Transfer"''\<close>

definition dashboard_handler ::
  "(string \<Rightarrow> int option) \<Rightarrow> store \<Rightarrow> user \<Rightarrow> query \<Rightarrow> failure + dashboard" where
  "dashboard_handler parse st u q =
     (let assets = filter (asset_matches (assetMatch u q)) (asset_docs st);
          (summary, byType) = calculate assets
      in if \<not> castable (dateMatch parse q) then Inl (ServerError cast_error)
         else Inr
           \<lparr>r_summary = summary,
            assetsByType = Object_values byType,
            recentTransfers =
              map transfer_view.truncate
                (recent t_createdAt
                   (filter (transfer_matches (transferMatch parse u q)) (transfer_docs st))),
            recentPurchases =
              map purchase_view.truncate
                (recent purchaseDate
                   (filter (\<lambda>p. record_matches (purchaseMatch parse u q)
                                  (p_createdAt p) (p_base p) (p_assetType p))
                      (purchase_docs st))),
            recentAssignments =
              map assignment_view.truncate
                (recent startDate
                   (filter (\<lambda>x. record_matches (assignmentMatch parse u q)
                                  (as_createdAt x) (as_base x) (as_assetType x))
                      (assignment_docs st))),
            recentExpenditures =
              map expenditure_view.truncate
                (recent expenditureDate
                   (filter (\<lambda>x. record_matches (expenditureMatch parse u q)
                                  (ex_createdAt x) (ex_base x) (ex_assetType x))
                      (expenditure_docs st)))\<rparr>)"

text \<open>
  Modelled from the spec: the \<^verbatim>\<open>baseAccess\<close> middleware (\<^verbatim>\<open>middleware/baseAccess.js\<close>)
  is not among the sources. The specification's \<^verbatim>\<open>scopeToBase(user, requestedBase)\<close>:
  "if user.role == BaseCommander, the effective base is forced to user.assignedBase
  regardless of any requested base parameter; attempting to access a different base fails
  with Forbidden"; Admin and LogisticsOfficer are unrestricted by base.
\<close>

definition scopeToBase :: "user \<Rightarrow> string option \<Rightarrow> failure + string option" where
  "scopeToBase u requestedBase =
     (if role u = BaseCommander
      then (case requestedBase of
              None \<Rightarrow> Inr (assignedBase u)
            | Some x \<Rightarrow> if Some x \<noteq> assignedBase u then Inl Forbidden
                        else Inr (assignedBase u))
      else Inr requestedBase)"

text \<open>The route: \<^verbatim>\<open>baseAccess\<close>, then the handler on the request as it came.\<close>

definition dashboard_route ::
  "(string \<Rightarrow> int option) \<Rightarrow> store \<Rightarrow> user \<Rightarrow> query \<Rightarrow> failure + dashboard" where
  "dashboard_route parse st u q =
     (case scopeToBase u (q_base q) of
        Inl f \<Rightarrow> Inl f
      | Inr effective \<Rightarrow> dashboard_handler parse st u q)"

section \<open>Concrete data for the worked instances\<close>

text \<open>
  The stub of \<^verbatim>\<open>bcrypt.compare\<close>: a stored string that is not 60 characters long is
  no hash and compares false; the one known hash matches its password; any other string
  of 60 characters is rejected as an invalid hash, which throws.
\<close>

definition ex_hash :: string where
  "ex_hash = ''$2a$10$N9qo8uLOickgx2ZMRZoMyeIjZAgcfl7p92ldGxad68LJZdL17lhWy''"

definition ex_unhashed :: string where
  "ex_unhashed = ''plain-text-password-that-was-stored-without-any-hashing-0001''"

definition ex_env :: env where
  "ex_env =
     \<lparr>bcrypt_compare =
        (\<lambda>pw h. if h = ex_hash then Some (pw = ''secret'')
                 else if length h \<noteq> 60 then Some False else None),
      bcrypt_hash = (\<lambda>pw. ''$2a$hash-of-'' @ pw),
      jwt_sign = (\<lambda>i. ''jwt5''),
      now = 5,
      log_error = (\<lambda>entry. None)\<rparr>"

definition ex_user :: user where
  "ex_user =
     \<lparr>uid = 1, username = ''alice'', email = ''alice@example.org'', fullName = ''Alice'',
      role = BaseCommander, assignedBase = Some ''Base-A'', active = True,
      lastLogin = None, createdAt = 0, updatedAt = 0, version = 0,
      password = ex_hash, tokens = [''t1'', ''t2'']\<rparr>"

definition ex_plain_user :: user where
  "ex_plain_user =
     \<lparr>uid = 2, username = ''bob'', email = ''bob@example.org'', fullName = ''Bob'',
      role = Admin, assignedBase = None, active = True,
      lastLogin = None, createdAt = 0, updatedAt = 0, version = 0,
      password = ex_unhashed, tokens = []\<rparr>"

definition ex_db :: db where
  "ex_db = \<lparr>users = [ex_user, ex_plain_user], activityLogs = []\<rparr>"

definition ex_request :: "string \<Rightarrow> string \<Rightarrow> request" where
  "ex_request name pw =
     \<lparr>body_username = Some name, body_password = Some pw,
      ip = ''10.0.0.1'', userAgent = ''curl''\<rparr>"

definition ex_env_log_down :: env where
  "ex_env_log_down = ex_env\<lparr>log_error := (\<lambda>entry. Some ''ActivityLog write failed'')\<rparr>"

definition ex_parse :: "string \<Rightarrow> int option" where
  "ex_parse s = (if s = ''2024-06-01'' then Some 1000
                 else if s = ''2024-12-31'' then Some 2000 else None)"

definition mk_asset :: "string \<Rightarrow> string \<Rightarrow> int \<Rightarrow> int \<Rightarrow> int \<Rightarrow> int \<Rightarrow> asset" where
  "mk_asset t b opening closing asg avail =
     \<lparr>asset_name = t, asset_type = t, asset_base = b, openingBalance = opening,
      closingBalance = closing, purchases = closing - opening, transferIn = 0, transferOut = 0,
      assigned = asg, expended = 0, available = avail, asset_createdAt = 500\<rparr>"

definition ex_assets :: "asset list" where
  "ex_assets = [mk_asset ''Vehicle'' ''Base-A'' 10 12 3 9, mk_asset ''Weapon'' ''Base-A'' 5 5 2 3]"

definition ex_large_assets :: "asset list" where
  "ex_large_assets =
     [mk_asset ''Vehicle'' ''Base-A'' 9007199254740992 9007199254740992 1 9007199254740991,
      mk_asset ''Weapon'' ''Base-A'' 3 3 1 2]"

definition ex_inherited_assets :: "asset list" where
  "ex_inherited_assets =
     [mk_asset ''Vehicle'' ''Base-A'' 10 12 3 9, mk_asset ''constructor'' ''Base-A'' 5 5 2 3]"

definition mk_transfer :: "string \<Rightarrow> string \<Rightarrow> int \<Rightarrow> transfer" where
  "mk_transfer src dst created =
     \<lparr>t_assetName = ''Vehicle'', fromBase = src, toBase = dst, t_quantity = 1,
      t_status = ''Completed'', t_createdAt = created, t_asset = 0\<rparr>"

definition mk_purchase :: "string \<Rightarrow> int \<Rightarrow> purchase" where
  "mk_purchase b day =
     \<lparr>p_assetName = ''Vehicle'', p_base = b, p_quantity = 2, p_status = ''Approved'',
      purchaseDate = day, p_assetType = ''Vehicle'', p_createdAt = day\<rparr>"

definition mk_assignment :: "string \<Rightarrow> int \<Rightarrow> assignment" where
  "mk_assignment b day =
     \<lparr>as_assetName = ''Weapon'', as_base = b, as_quantity = 1, assignedTo = ''Sgt. Ray'',
      as_status = ''Active'', startDate = day, as_assetType = ''Weapon'', as_createdAt = day\<rparr>"

definition mk_expenditure :: "string \<Rightarrow> int \<Rightarrow> expenditure" where
  "mk_expenditure b day =
     \<lparr>ex_assetName = ''Weapon'', ex_base = b, ex_quantity = 1, reason = ''Training'',
      expenditureDate = day, ex_assetType = ''Weapon'', ex_createdAt = day\<rparr>"

definition ex_store :: store where
  "ex_store =
     \<lparr>asset_docs = ex_assets @ [mk_asset ''Vehicle'' ''Base-B'' 4 4 1 3],
      transfer_docs =
        [mk_transfer ''Base-A'' ''Base-B'' 1100, mk_transfer ''Base-B'' ''Base-A'' 1300,
         mk_transfer ''Base-B'' ''Base-C'' 1700, mk_transfer ''Base-A'' ''Base-C'' 1200,
         mk_transfer ''Base-C'' ''Base-A'' 1600, mk_transfer ''Base-A'' ''Base-B'' 1500,
         mk_transfer ''Base-A'' ''Base-C'' 1400],
      purchase_docs = [mk_purchase ''Base-A'' 1100, mk_purchase ''Base-B'' 1200,
                       mk_purchase ''Base-A'' 1300],
      assignment_docs = [mk_assignment ''Base-A'' 1100, mk_assignment ''Base-B'' 1200],
      expenditure_docs = [mk_expenditure ''Base-B'' 1100, mk_expenditure ''Base-A'' 1200]\<rparr>"

definition ex_query :: "string option \<Rightarrow> string option \<Rightarrow> query" where
  "ex_query b start = \<lparr>q_base = b, q_assetType = None, q_startDate = start, q_endDate = None\<rparr>"

section \<open>Notions used in the proofs\<close>

text \<open>The grouping half of one \<^verbatim>\<open>forEach\<close> turn, and what the loop maintains of it.\<close>

definition group_step :: "asset \<Rightarrow> (string \<times> type_group) list \<Rightarrow> (string \<times> type_group) list" where
  "group_step a obj =
     update_group a
       (if \<not> has_property obj (asset_type a)
        then obj @ [(asset_type a, new_group (asset_type a))]
        else obj)"

definition group_inv :: "asset list \<Rightarrow> (string \<times> type_group) list \<Rightarrow> bool" where
  "group_inv S obj \<longleftrightarrow>
     distinct (map fst obj) \<and>
     set (map fst obj) = asset_type ` set S \<and>
     (\<forall>(k, g) \<in> set obj. g_type g = k \<and>
        g_count g = Finite (int (length (filter (\<lambda>a. asset_type a = k) S))))"

text \<open>The Asset filter of a BaseCommander, written out.\<close>

definition own_assets :: "user \<Rightarrow> query \<Rightarrow> store \<Rightarrow> asset list" where
  "own_assets u q st =
     filter (\<lambda>a. Some (asset_base a) = assignedBase u \<and>
                 (truthy (q_assetType q) \<longrightarrow> Some (asset_type a) = q_assetType q))
       (asset_docs st)"

section \<open>Login\<close>

lemma save_log_users: "save_log e d entry = Inr d' \<Longrightarrow> users d' = users d"
  by (auto simp: save_log_def split: option.splits)

text \<open>
  C2. A login request whose username names a stored, active user and whose password
  fails the hash comparison is answered with status 401 and the message
  "Invalid username or password", and the stored users, hence every token set, are
  what they were: no token is generated or appended.
\<close>

theorem login_wrong_password:
  assumes "body_username req = Some name" and "body_password req = Some pw"
    and "name \<noteq> []" and "pw \<noteq> []"
    and "findOne d name = Some u" and "active u"
    and "bcrypt_compare e pw (password u) = Some False"
  shows "fst (login e d req) =
           \<lparr>status = 401,
            body = ErrorMessageBody ''Authentication failed'' ''Invalid username or password''\<rparr>
         \<and> users (snd (login e d req)) = users d"
proof -
  have fc: "findByCredentials e d name pw = Inl (Error ''Invalid username or password'')"
    using assms by (simp add: findByCredentials_def)
  have lt: "login_try e d name pw req = Inl (Error ''Invalid username or password'')"
    using assms fc by (simp add: login_try_def)
  show ?thesis
    using assms lt
    by (auto simp: login_def Let_def split: sum.splits dest: save_log_users)
qed

theorem login_wrong_password_witness:
  "fst (login ex_env ex_db (ex_request ''alice'' ''wrong'')) =
     \<lparr>status = 401,
      body = ErrorMessageBody ''Authentication failed'' ''Invalid username or password''\<rparr>
   \<and> users (snd (login ex_env ex_db (ex_request ''alice'' ''wrong''))) = users ex_db"
  by (rule login_wrong_password [where name = "''alice''" and pw = "''wrong''" and u = ex_user])
     (simp_all add: ex_request_def ex_db_def ex_user_def ex_plain_user_def ex_env_def
        findOne_def)

section \<open>Logout, logout-all and the activity log\<close>

lemma pre_save_uid: "uid (pre_save e v u) = uid u"
  by (auto simp: pre_save_def Let_def)

lemma pre_save_tokens: "tokens (pre_save e v u) = tokens u"
  by (auto simp: pre_save_def Let_def)

lemma pre_save_same_password:
  "password u = password v \<Longrightarrow>
     pre_save e v u =
       (if u = v then u
        else if tokens u \<noteq> tokens v then u\<lparr>version := version u + 1, updatedAt := now e\<rparr>
        else u\<lparr>updatedAt := now e\<rparr>)"
  by (simp add: pre_save_def Let_def)

lemma find_token_after_replace:
  assumes "t \<in> set (tokens (f u))"
  shows "find (\<lambda>x. uid x = i) xs = Some u \<Longrightarrow>
         \<forall>x \<in> set xs. uid x \<noteq> i \<longrightarrow> t \<notin> set (tokens x) \<Longrightarrow>
         find (\<lambda>x. t \<in> set (tokens x)) (map (\<lambda>x. if uid x = i then f x else x) xs)
           = Some (f u)"
  by (induction xs) (auto simp: assms)

lemma resolveSession_holder:
  "v \<in> set (users d) \<Longrightarrow> t \<in> set (tokens v) \<Longrightarrow>
     \<exists>w. resolveSession d t = Some w \<and> t \<in> set (tokens w)"
  by (cases "resolveSession d t") (auto simp: resolveSession_def find_None_iff find_Some_iff)

lemma findById_in_users: "findById d i = Some v \<Longrightarrow> v \<in> set (users d)"
  by (auto simp: findById_def find_Some_iff)

lemma find_map_replace:
  assumes "\<And>x. uid (f x) = i"
  shows "find (\<lambda>x. uid x = i) xs = Some v \<Longrightarrow>
         find (\<lambda>x. uid x = i) (map (\<lambda>x. if uid x = i then f x else x) xs) = Some (f v)"
  by (induction xs) (auto simp: assms)

lemma findById_save:
  "findById d (uid u) = Some v \<Longrightarrow> findById (save e d u) (uid u) = Some (pre_save e v u)"
  unfolding findById_def save_def
  by (simp add: find_map_replace [where f = "\<lambda>v. pre_save e v u"] pre_save_uid)

lemma users_logout_all: "users (snd (logout_all e d u req)) = users (save e d (u\<lparr>tokens := []\<rparr>))"
  by (auto simp: logout_all_def Let_def split: sum.splits dest: save_log_users)

lemma users_logout:
  "users (snd (logout e d u t req)) =
     users (save e d (u\<lparr>tokens := filter (\<lambda>token. token \<noteq> t) (tokens u)\<rparr>))"
  by (auto simp: logout_def Let_def split: sum.splits dest: save_log_users)

lemma findById_cong: "users d = users d' \<Longrightarrow> findById d i = findById d' i"
  by (simp add: findById_def)

lemma resolveSession_Some:
  "resolveSession d t = Some v \<Longrightarrow> v \<in> set (users d) \<and> t \<in> set (tokens v)"
  by (auto simp: resolveSession_def find_Some_iff)

text \<open>
  C8. After logout-all the caller's stored token set is empty; no token resolves to the
  caller any more, and a token that no other user holds resolves to nobody.
\<close>

theorem logout_all_empties:
  assumes "findById d (uid u) = Some u"
  shows "(\<exists>v. findById (snd (logout_all e d u req)) (uid u) = Some v \<and> tokens v = [])
       \<and> (\<forall>t v. resolveSession (snd (logout_all e d u req)) t = Some v \<longrightarrow> uid v \<noteq> uid u)
       \<and> (\<forall>t. (\<forall>w \<in> set (users d). uid w \<noteq> uid u \<longrightarrow> t \<notin> set (tokens w))
              \<longrightarrow> resolveSession (snd (logout_all e d u req)) t = None)"
proof -
  let ?u = "u\<lparr>tokens := []\<rparr>"
  let ?d = "snd (logout_all e d u req)"
  have us: "users ?d = users (save e d ?u)" by (rule users_logout_all)
  have "findById (save e d ?u) (uid ?u) = Some (pre_save e u ?u)"
    using assms by (intro findById_save) simp
  then have stored: "findById ?d (uid u) = Some (pre_save e u ?u)"
    using findById_cong [OF us] by simp
  have none: "tokens v = []" if "v \<in> set (users ?d)" and "uid v = uid u" for v
    using that unfolding us save_def by (auto simp: pre_save_tokens split: if_splits)
  have other: "w \<in> set (users d) \<and> uid w \<noteq> uid u" if "v \<in> set (users ?d)" and "tokens v \<noteq> []" and "w = v" for v w
    using that unfolding us save_def by (auto simp: pre_save_tokens split: if_splits)
  have a: "\<exists>v. findById ?d (uid u) = Some v \<and> tokens v = []"
    using stored by (simp add: pre_save_tokens)
  have b: "uid v \<noteq> uid u" if "resolveSession ?d t = Some v" for t v
    using resolveSession_Some [OF that] none [of v] by auto
  have c: "resolveSession ?d t = None"
    if "\<forall>w \<in> set (users d). uid w \<noteq> uid u \<longrightarrow> t \<notin> set (tokens w)" for t
  proof (cases "resolveSession ?d t")
    case None then show ?thesis .
  next
    case (Some v)
    from resolveSession_Some [OF Some] have v: "v \<in> set (users ?d)" "t \<in> set (tokens v)" by auto
    then have "tokens v \<noteq> []" by auto
    from other [OF v(1) this refl] that v(2) show ?thesis by auto
  qed
  show ?thesis using a b c by blast
qed

text \<open>
  C10. When \<^verbatim>\<open>bcrypt.compare\<close> throws for a stored, active user,
  \<^verbatim>\<open>findByCredentials\<close> decides by string equality of the supplied password and the
  stored password field, and the login answers 200 exactly when the two are equal (401
  otherwise).
\<close>

theorem login_bcrypt_throws:
  assumes "body_username req = Some name" and "body_password req = Some pw"
    and "name \<noteq> []" and "pw \<noteq> []"
    and "findOne d name = Some u" and "active u"
    and "bcrypt_compare e pw (password u) = None"
  shows "findByCredentials e d name pw =
           (if pw = password u then Inr u else Inl (Error ''Invalid username or password''))
       \<and> (status (fst (login e d req)) = 200 \<longleftrightarrow> pw = password u)
       \<and> (status (fst (login e d req)) = 401 \<longleftrightarrow> pw \<noteq> password u)"
proof -
  have fc: "findByCredentials e d name pw =
           (if pw = password u then Inr u else Inl (Error ''Invalid username or password''))"
    using assms by (simp add: findByCredentials_def)
  show ?thesis
    using assms fc
    by (auto simp: login_def login_try_def generateAuthToken_def Let_def split: sum.splits prod.splits)
qed

lemma stored_after_logout:
  assumes "findById d (uid u) = Some u"
  shows "findById (snd (logout e d u t req)) (uid u) =
           Some (u\<lparr>tokens := filter (\<lambda>token. token \<noteq> t) (tokens u),
                   version := (if t \<in> set (tokens u) then version u + 1 else version u),
                   updatedAt := (if t \<in> set (tokens u) then now e else updatedAt u)\<rparr>)"
    and "pre_save e u (u\<lparr>tokens := filter (\<lambda>token. token \<noteq> t) (tokens u)\<rparr>) =
           u\<lparr>tokens := filter (\<lambda>token. token \<noteq> t) (tokens u),
             version := (if t \<in> set (tokens u) then version u + 1 else version u),
             updatedAt := (if t \<in> set (tokens u) then now e else updatedAt u)\<rparr>"
proof -
  let ?u = "u\<lparr>tokens := filter (\<lambda>token. token \<noteq> t) (tokens u)\<rparr>"
  let ?d = "snd (logout e d u t req)"
  have us: "users ?d = users (save e d ?u)" by (rule users_logout)
  have "findById (save e d ?u) (uid ?u) = Some (pre_save e u ?u)"
    using assms by (intro findById_save) simp
  then have stored: "findById ?d (uid u) = Some (pre_save e u ?u)"
    using findById_cong [OF us] by simp
  have ps: "pre_save e u ?u =
      (if ?u = u then ?u
       else if tokens ?u \<noteq> tokens u then ?u\<lparr>version := version ?u + 1, updatedAt := now e\<rparr>
       else ?u\<lparr>updatedAt := now e\<rparr>)"
    by (rule pre_save_same_password) simp
  have neq: "?u \<noteq> u \<longleftrightarrow> t \<in> set (tokens u)"
    by (cases u) (auto simp: filter_id_conv)
  have tk: "tokens ?u \<noteq> tokens u \<longleftrightarrow> t \<in> set (tokens u)"
    by (auto simp: filter_id_conv)
  show 2: "pre_save e u ?u =
           u\<lparr>tokens := filter (\<lambda>token. token \<noteq> t) (tokens u),
             version := (if t \<in> set (tokens u) then version u + 1 else version u),
             updatedAt := (if t \<in> set (tokens u) then now e else updatedAt u)\<rparr>"
  proof (cases "t \<in> set (tokens u)")
    case True
    with neq tk have "?u \<noteq> u" "tokens ?u \<noteq> tokens u" by blast+
    then have "pre_save e u ?u = ?u\<lparr>version := version ?u + 1, updatedAt := now e\<rparr>"
      unfolding ps by (simp only: if_False if_True simp_thms)
    then show ?thesis using True by simp
  next
    case False
    with neq have same: "?u = u" by blast
    have "pre_save e u ?u = ?u" unfolding ps using same by (simp only: if_True simp_thms)
    then show ?thesis using False by simp
  qed
  show "findById ?d (uid u) =
           Some (u\<lparr>tokens := filter (\<lambda>token. token \<noteq> t) (tokens u),
                   version := (if t \<in> set (tokens u) then version u + 1 else version u),
                   updatedAt := (if t \<in> set (tokens u) then now e else updatedAt u)\<rparr>)"
    unfolding stored 2 ..
qed

lemma remaining_token_resolves:
  assumes st: "findById d (uid u) = Some u" and t': "t' \<in> set (tokens u)" "t' \<noteq> t"
  shows "\<exists>w. resolveSession (snd (logout e d u t req)) t' = Some w \<and> t' \<in> set (tokens w)"
    and "\<forall>x \<in> set (users d). uid x \<noteq> uid u \<longrightarrow> t' \<notin> set (tokens x) \<Longrightarrow>
         resolveSession (snd (logout e d u t req)) t' = findById (snd (logout e d u t req)) (uid u)"
proof -
  let ?u = "u\<lparr>tokens := filter (\<lambda>token. token \<noteq> t) (tokens u)\<rparr>"
  let ?d = "snd (logout e d u t req)"
  let ?v = "pre_save e u ?u"
  have us: "users ?d = users (save e d ?u)" by (rule users_logout)
  have holds: "t' \<in> set (tokens ?v)" using t' by (simp add: pre_save_tokens)
  have "findById (save e d ?u) (uid ?u) = Some ?v"
    using st by (intro findById_save) simp
  then have stored: "findById ?d (uid u) = Some ?v"
    using findById_cong [OF us] by simp
  from findById_in_users [OF stored] holds
  show "\<exists>w. resolveSession ?d t' = Some w \<and> t' \<in> set (tokens w)"
    by (rule resolveSession_holder)
  assume others: "\<forall>x \<in> set (users d). uid x \<noteq> uid u \<longrightarrow> t' \<notin> set (tokens x)"
  have "find (\<lambda>x. t' \<in> set (tokens x))
          (map (\<lambda>x. if uid x = uid u then pre_save e x ?u else x) (users d)) = Some ?v"
    using st others holds unfolding findById_def
    by (intro find_token_after_replace [where f = "\<lambda>x. pre_save e x ?u"]) auto
  then show "resolveSession ?d t' = findById ?d (uid u)"
    unfolding stored resolveSession_def us save_def by simp
qed

text \<open>
  C9, as amended. Logout stores the caller's document with the token list filtered of the
  presented token: the presented token is gone, every other token stays and still
  resolves to a session (to the caller's, when no other user holds it), and every other
  field is as before except the two that the save itself maintains when a token was
  removed: \<^verbatim>\<open>updatedAt\<close>, set to the current time, and the version key, incremented.
\<close>

theorem logout_removes_token:
  assumes "findById d (uid u) = Some u"
  shows "\<exists>v. findById (snd (logout e d u t req)) (uid u) = Some v
           \<and> tokens v = filter (\<lambda>token. token \<noteq> t) (tokens u)
           \<and> t \<notin> set (tokens v)
           \<and> (\<forall>t' \<in> set (tokens u). t' \<noteq> t \<longrightarrow>
                 t' \<in> set (tokens v)
               \<and> (\<exists>w. resolveSession (snd (logout e d u t req)) t' = Some w
                      \<and> t' \<in> set (tokens w))
               \<and> ((\<forall>x \<in> set (users d). uid x \<noteq> uid u \<longrightarrow> t' \<notin> set (tokens x)) \<longrightarrow>
                    resolveSession (snd (logout e d u t req)) t' = Some v))
           \<and> updatedAt v = (if t \<in> set (tokens u) then now e else updatedAt u)
           \<and> version v = (if t \<in> set (tokens u) then version u + 1 else version u)
           \<and> v\<lparr>tokens := tokens u, updatedAt := updatedAt u, version := version u\<rparr> = u"
proof -
  let ?d = "snd (logout e d u t req)"
  let ?v = "u\<lparr>tokens := filter (\<lambda>token. token \<noteq> t) (tokens u),
              version := (if t \<in> set (tokens u) then version u + 1 else version u),
              updatedAt := (if t \<in> set (tokens u) then now e else updatedAt u)\<rparr>"
  have stored: "findById ?d (uid u) = Some ?v" by (rule stored_after_logout(1) [OF assms])
  have 1: "tokens ?v = filter (\<lambda>token. token \<noteq> t) (tokens u)" by simp
  have 2: "t \<notin> set (tokens ?v)" by simp
  have 3: "t' \<in> set (tokens ?v)
           \<and> (\<exists>w. resolveSession ?d t' = Some w \<and> t' \<in> set (tokens w))
           \<and> ((\<forall>x \<in> set (users d). uid x \<noteq> uid u \<longrightarrow> t' \<notin> set (tokens x)) \<longrightarrow>
                resolveSession ?d t' = Some ?v)"
    if "t' \<in> set (tokens u)" "t' \<noteq> t" for t'
    using remaining_token_resolves [OF assms that, of e req] that stored by simp
  have 4: "updatedAt ?v = (if t \<in> set (tokens u) then now e else updatedAt u)" by simp
  have 5: "version ?v = (if t \<in> set (tokens u) then version u + 1 else version u)" by simp
  have 6: "?v\<lparr>tokens := tokens u, updatedAt := updatedAt u, version := version u\<rparr> = u"
    by (cases u) simp
  show ?thesis
    using stored 1 2 3 4 5 6 by (intro exI [of _ ?v]) blast
qed

theorem logout_all_empties_witness:
  "findById ex_db (uid ex_user) = Some ex_user
   \<and> ''t1'' \<in> set (tokens ex_user)
   \<and> (\<exists>v. findById (snd (logout_all ex_env ex_db ex_user (ex_request [] []))) (uid ex_user)
            = Some v \<and> tokens v = [])
   \<and> resolveSession (snd (logout_all ex_env ex_db ex_user (ex_request [] []))) ''t1'' = None"
proof -
  have h: "findById ex_db (uid ex_user) = Some ex_user"
    by (simp add: findById_def ex_db_def ex_user_def)
  have o: "\<forall>w \<in> set (users ex_db). uid w \<noteq> uid ex_user \<longrightarrow> ''t1'' \<notin> set (tokens w)"
    by (simp add: ex_db_def ex_user_def ex_plain_user_def)
  have t: "''t1'' \<in> set (tokens ex_user)" by (simp add: ex_user_def)
  show ?thesis
    using h o t logout_all_empties [OF h, of ex_env "ex_request [] []"] by blast
qed

theorem login_bcrypt_throws_witness:
  "bcrypt_compare ex_env ex_unhashed (password ex_plain_user) = None
   \<and> status (fst (login ex_env ex_db (ex_request ''bob'' ex_unhashed))) = 200
   \<and> bcrypt_compare ex_env ''guess'' (password ex_plain_user) = None
   \<and> status (fst (login ex_env ex_db (ex_request ''bob'' ''guess''))) = 401"
proof -
  have f: "findOne ex_db ''bob'' = Some ex_plain_user"
    by (simp add: findOne_def ex_db_def ex_user_def ex_plain_user_def)
  have a: "active ex_plain_user" by (simp add: ex_plain_user_def)
  have c: "bcrypt_compare ex_env pw (password ex_plain_user) = None" for pw
    by (simp add: ex_env_def ex_plain_user_def ex_unhashed_def ex_hash_def)
  have p: "password ex_plain_user = ex_unhashed" by (simp add: ex_plain_user_def)
  have n: "ex_unhashed \<noteq> []" "ex_unhashed \<noteq> ''guess''" by (simp_all add: ex_unhashed_def)
  have 1: "status (fst (login ex_env ex_db (ex_request ''bob'' ex_unhashed))) = 200"
    using login_bcrypt_throws [of "ex_request ''bob'' ex_unhashed" "''bob''" ex_unhashed
        ex_db ex_plain_user ex_env] f a c p n
    by (simp add: ex_request_def)
  have 2: "status (fst (login ex_env ex_db (ex_request ''bob'' ''guess''))) = 401"
    using login_bcrypt_throws [of "ex_request ''bob'' ''guess''" "''bob''" "''guess''"
        ex_db ex_plain_user ex_env] f a c p n
    by (simp add: ex_request_def)
  show ?thesis using 1 2 c by simp
qed

theorem logout_removes_token_witness:
  "findById ex_db (uid ex_user) = Some ex_user
   \<and> (\<exists>v. findById (snd (logout ex_env ex_db ex_user ''t1'' (ex_request [] []))) (uid ex_user)
            = Some v
          \<and> tokens v = [''t2''] \<and> updatedAt v = 5 \<and> version v = 1
          \<and> resolveSession (snd (logout ex_env ex_db ex_user ''t1'' (ex_request [] []))) ''t2''
              = Some v
          \<and> v\<lparr>tokens := tokens ex_user, updatedAt := updatedAt ex_user,
               version := version ex_user\<rparr> = ex_user)"
proof -
  let ?d = "snd (logout ex_env ex_db ex_user ''t1'' (ex_request [] []))"
  have h: "findById ex_db (uid ex_user) = Some ex_user"
    by (simp add: findById_def ex_db_def ex_user_def)
  have t: "filter (\<lambda>token. token \<noteq> ''t1'') (tokens ex_user) = [''t2'']"
       "''t1'' \<in> set (tokens ex_user)" "now ex_env = 5" "version ex_user = 0"
       "''t2'' \<in> set (tokens ex_user)"
    by (simp_all add: ex_user_def ex_env_def)
  have o: "\<forall>x \<in> set (users ex_db). uid x \<noteq> uid ex_user \<longrightarrow> ''t2'' \<notin> set (tokens x)"
    by (simp add: ex_db_def ex_user_def ex_plain_user_def)
  from logout_removes_token [OF h, of ex_env "''t1''" "ex_request [] []"]
  obtain v where
    v: "findById ?d (uid ex_user) = Some v"
       "tokens v = filter (\<lambda>token. token \<noteq> ''t1'') (tokens ex_user)"
       "\<forall>t' \<in> set (tokens ex_user). t' \<noteq> ''t1'' \<longrightarrow>
           t' \<in> set (tokens v)
         \<and> (\<exists>w. resolveSession ?d t' = Some w \<and> t' \<in> set (tokens w))
         \<and> ((\<forall>x \<in> set (users ex_db). uid x \<noteq> uid ex_user \<longrightarrow> t' \<notin> set (tokens x)) \<longrightarrow>
              resolveSession ?d t' = Some v)"
       "updatedAt v = (if ''t1'' \<in> set (tokens ex_user) then now ex_env else updatedAt ex_user)"
       "version v = (if ''t1'' \<in> set (tokens ex_user) then version ex_user + 1
                     else version ex_user)"
       "v\<lparr>tokens := tokens ex_user, updatedAt := updatedAt ex_user,
          version := version ex_user\<rparr> = ex_user"
    by blast
  from v(3) t(5) o have r: "resolveSession ?d ''t2'' = Some v" by auto
  show ?thesis using h v(1,2,4,5,6) r t by simp
qed

text \<open>
  C9 as stated fails: after the logout, at time 5, of a user whose \<^verbatim>\<open>updatedAt\<close> and
  version key were 0, the stored document is not the old one with only the token list
  changed.
\<close>

theorem logout_changes_updatedAt:
  "findById ex_db (uid ex_user) = Some ex_user
   \<and> tokens ex_user = [''t1'', ''t2'']
   \<and> updatedAt ex_user = 0
   \<and> version ex_user = 0
   \<and> findById (snd (logout ex_env ex_db ex_user ''t1'' (ex_request [] []))) (uid ex_user)
       = Some (ex_user\<lparr>tokens := [''t2''], updatedAt := 5, version := 1\<rparr>)"
  by (simp add: logout_def save_def saved_def pre_save_def save_log_def findById_def Let_def
        ex_db_def ex_user_def ex_plain_user_def ex_env_def)

text \<open>
  C3. With an ActivityLog write that fails, logout and logout-all answer 500 and
  change-password answers 400, each with the log error's message; only login, whose
  write is wrapped in its own \<^verbatim>\<open>try\<close>, still answers 200.
\<close>

theorem log_failure_propagates:
  "fst (logout ex_env_log_down ex_db ex_user ''t1'' (ex_request [] []))
     = \<lparr>status = 500, body = ErrorBody ''ActivityLog write failed''\<rparr>
   \<and> fst (logout_all ex_env_log_down ex_db ex_user (ex_request [] []))
     = \<lparr>status = 500, body = ErrorBody ''ActivityLog write failed''\<rparr>
   \<and> fst (change_password ex_env_log_down ex_db ex_user ''secret'' ''fresh'' (ex_request [] []))
     = \<lparr>status = 400,
        body = ErrorMessageBody ''Password change failed'' ''ActivityLog write failed''\<rparr>
   \<and> status (fst (login ex_env_log_down ex_db (ex_request ''alice'' ''secret''))) = 200"
  by (simp add: logout_def logout_all_def change_password_def login_def login_try_def
        findByCredentials_def findOne_def generateAuthToken_def validate_password_def
        save_def saved_def pre_save_def save_log_def findById_def Let_def
        ex_db_def ex_user_def ex_plain_user_def ex_env_def ex_env_log_down_def ex_request_def)

text \<open>The login response, by contrast, does not depend on the log write.\<close>

lemma login_swallows_log_failure:
  "fst (login (e\<lparr>log_error := f\<rparr>) d req) = fst (login e d req)"
  by (auto simp: login_def login_try_def findByCredentials_def generateAuthToken_def
        save_def saved_def pre_save_def save_log_def Let_def
      split: option.splits sum.splits prod.splits if_splits)

section \<open>The summary loop\<close>

lemma fold_forEach_step:
  "fold forEach_step xs (s, obj) = (fold add_to_summary xs s, fold group_step xs obj)"
  by (induction xs arbitrary: s obj) (simp_all add: forEach_step_def group_step_def)

lemma calculate_eq:
  "calculate xs = (fold add_to_summary xs (initial_summary xs), fold group_step xs [])"
  by (simp add: calculate_def fold_forEach_step)

lemma to_double_exact: "\<bar>n\<bar> \<le> 2 ^ 53 \<Longrightarrow> to_double n = Finite n"
proof -
  assume "\<bar>n\<bar> \<le> 2 ^ 53"
  then have "nat \<bar>n\<bar> \<le> 2 ^ 53" by (simp add: nat_le_iff)
  then show ?thesis by (simp add: to_double_def Let_def)
qed

lemma js_add_exact:
  assumes "\<bar>t\<bar> + \<bar>x\<bar> \<le> 2 ^ 53"
  shows "js_add (Finite t) (to_double x) = Finite (t + x)"
proof -
  from assms have "\<bar>x\<bar> \<le> 2 ^ 53" "\<bar>t + x\<bar> \<le> 2 ^ 53" by linarith+
  then show ?thesis by (simp add: to_double_exact)
qed

lemma fold_exact:
  assumes step: "\<And>a s. get (add_to_summary a s) = js_add (get s) (to_double (f a))"
  shows "get s = Finite t \<Longrightarrow> \<bar>t\<bar> + sum_list (map (\<lambda>a. \<bar>f a\<bar>) xs) \<le> 2 ^ 53 \<Longrightarrow>
         get (fold add_to_summary xs s) = Finite (t + sum_list (map f xs))"
proof (induction xs arbitrary: s t)
  case Nil
  then show ?case by simp
next
  case (Cons a xs)
  have nn: "0 \<le> sum_list (map (\<lambda>a. \<bar>f a\<bar>) xs)" by (rule sum_list_nonneg) auto
  with Cons.prems(2) have "\<bar>t\<bar> + \<bar>f a\<bar> \<le> 2 ^ 53" by simp
  then have 1: "get (add_to_summary a s) = Finite (t + f a)"
    using Cons.prems(1) by (simp add: step js_add_exact)
  have 2: "\<bar>t + f a\<bar> + sum_list (map (\<lambda>a. \<bar>f a\<bar>) xs) \<le> 2 ^ 53"
    using Cons.prems(2) by simp
  from Cons.IH [OF 1 2] show ?case by (simp add: add.assoc)
qed

lemma fold_summary_assets:
  "totalAssets (fold add_to_summary xs s) = totalAssets s"
  by (induction xs arbitrary: s) (simp_all add: add_to_summary_def)

lemma sum_list_diff:
  "(\<forall>a \<in> set xs. f a = g a - (h a :: int)) \<Longrightarrow>
     sum_list (map f xs) = sum_list (map g xs) - sum_list (map h xs)"
  by (induction xs) simp_all

lemma total_exact:
  assumes "sum_list (map (\<lambda>a. \<bar>available a\<bar>) S) \<le> 2 ^ 53"
  shows "totalAvailable (fst (calculate S)) = Finite (sum_list (map available S))"
  using fold_exact [where get = totalAvailable and f = available and s = "initial_summary S"
      and t = 0 and xs = S] assms
  by (simp add: calculate_eq add_to_summary_def initial_summary_def)

lemma closing_exact:
  assumes "sum_list (map (\<lambda>a. \<bar>closingBalance a\<bar>) S) \<le> 2 ^ 53"
  shows "totalClosingBalance (fst (calculate S)) = Finite (sum_list (map closingBalance S))"
  using fold_exact [where get = totalClosingBalance and f = closingBalance
      and s = "initial_summary S" and t = 0 and xs = S] assms
  by (simp add: calculate_eq add_to_summary_def initial_summary_def)

lemma assigned_exact:
  assumes "sum_list (map (\<lambda>a. \<bar>assigned a\<bar>) S) \<le> 2 ^ 53"
  shows "totalAssigned (fst (calculate S)) = Finite (sum_list (map assigned S))"
  using fold_exact [where get = totalAssigned and f = assigned and s = "initial_summary S"
      and t = 0 and xs = S] assms
  by (simp add: calculate_eq add_to_summary_def initial_summary_def)

text \<open>
  C5, as amended. For every list S of matched Assets whose \<^verbatim>\<open>available\<close> values have
  magnitudes that add up to at most \<open>2^53\<close>, the summary's \<^verbatim>\<open>totalAvailable\<close> is the
  sum of \<^verbatim>\<open>available\<close> over S; when every asset of S has
  available = closingBalance - assigned, this is the sum of \<^verbatim>\<open>closingBalance\<close> minus
  the sum of \<^verbatim>\<open>assigned\<close>, and within the same bound on these two fields the summary's
  \<^verbatim>\<open>totalClosingBalance\<close> and \<^verbatim>\<open>totalAssigned\<close> are those two sums.
\<close>

theorem totalAvailable_sum:
  assumes "sum_list (map (\<lambda>a. \<bar>available a\<bar>) S) \<le> 2 ^ 53"
  shows "totalAvailable (fst (calculate S)) = Finite (sum_list (map available S))
   \<and> ((\<forall>a \<in> set S. available a = closingBalance a - assigned a) \<longrightarrow>
        totalAvailable (fst (calculate S))
          = Finite (sum_list (map closingBalance S) - sum_list (map assigned S))
      \<and> (sum_list (map (\<lambda>a. \<bar>closingBalance a\<bar>) S) \<le> 2 ^ 53
           \<and> sum_list (map (\<lambda>a. \<bar>assigned a\<bar>) S) \<le> 2 ^ 53 \<longrightarrow>
          totalClosingBalance (fst (calculate S)) = Finite (sum_list (map closingBalance S))
        \<and> totalAssigned (fst (calculate S)) = Finite (sum_list (map assigned S))))"
  using total_exact [OF assms] closing_exact [of S] assigned_exact [of S]
  by (simp add: sum_list_diff)

theorem totalAvailable_sum_witness:
  "sum_list (map (\<lambda>a. \<bar>available a\<bar>) ex_assets) = 12
   \<and> list_all (\<lambda>a. available a = closingBalance a - assigned a) ex_assets
   \<and> sum_list (map closingBalance ex_assets) - sum_list (map assigned ex_assets) = 12
   \<and> totalAvailable (fst (calculate ex_assets)) = Finite 12
   \<and> totalClosingBalance (fst (calculate ex_assets)) = Finite 17
   \<and> totalAssigned (fst (calculate ex_assets)) = Finite 5"
proof -
  have b: "sum_list (map (\<lambda>a. \<bar>available a\<bar>) ex_assets) = 12"
    "sum_list (map (\<lambda>a. \<bar>closingBalance a\<bar>) ex_assets) = 17"
    "sum_list (map (\<lambda>a. \<bar>assigned a\<bar>) ex_assets) = 5"
    by (simp_all add: ex_assets_def mk_asset_def)
  have h: "\<forall>a \<in> set ex_assets. available a = closingBalance a - assigned a"
    by (simp add: ex_assets_def mk_asset_def)
  have s: "sum_list (map available ex_assets) = 12" "sum_list (map closingBalance ex_assets) = 17"
    "sum_list (map assigned ex_assets) = 5"
    by (simp_all add: ex_assets_def mk_asset_def)
  have "sum_list (map (\<lambda>a. \<bar>available a\<bar>) ex_assets) \<le> 2 ^ 53" unfolding b by simp
  from totalAvailable_sum [OF this] h b s show ?thesis by (simp add: list_all_iff)
qed

text \<open>
  C5 as stated fails: the two assets satisfy available = closingBalance - assigned and
  their \<^verbatim>\<open>available\<close> values add up to \<open>2^53 + 1\<close>, as do the sum of
  \<^verbatim>\<open>closingBalance\<close> minus the sum of \<^verbatim>\<open>assigned\<close>; the double that the loop
  computes is \<open>2^53\<close>.
\<close>

theorem totalAvailable_rounds:
  "list_all (\<lambda>a. available a = closingBalance a - assigned a) ex_large_assets
   \<and> sum_list (map available ex_large_assets) = 9007199254740993
   \<and> sum_list (map closingBalance ex_large_assets) - sum_list (map assigned ex_large_assets)
       = 9007199254740993
   \<and> totalAvailable (fst (calculate ex_large_assets)) = Finite 9007199254740992"
  by (simp add: calculate_eq ex_large_assets_def mk_asset_def add_to_summary_def
        initial_summary_def to_double_def Let_def ulp.simps)

lemma map_fst_update_group: "map fst (update_group a obj) = map fst obj"
  by (induction obj) (auto simp: update_group_def)

lemma update_group_absent:
  "asset_type a \<notin> set (map fst obj) \<Longrightarrow> update_group a obj = obj"
  by (induction obj) (auto simp: update_group_def)

lemma update_group_set:
  "(k, g) \<in> set (update_group a obj) \<Longrightarrow>
     (k \<noteq> asset_type a \<and> (k, g) \<in> set obj) \<or>
     (k = asset_type a \<and> (\<exists>g0. (k, g0) \<in> set obj \<and> g = add_to_group a g0))"
  by (auto simp: update_group_def split: if_splits)

lemma count_exact:
  assumes "n < 2 ^ 32"
  shows "js_add (Finite (int n)) (Finite 1) = Finite (int n + 1)"
proof -
  from assms have "int n < int (2 ^ 32)" by (simp only: of_nat_less_iff)
  then have "\<bar>int n + 1\<bar> \<le> 2 ^ 53" by simp
  then show ?thesis by (simp add: to_double_exact)
qed

lemma group_step_inv:
  assumes inv: "group_inv S obj" and ty: "asset_type a \<notin> set Object_prototype"
    and len: "length S < 2 ^ 32"
  shows "group_inv (S @ [a]) (group_step a obj)"
proof -
  let ?k = "asset_type a"
  have d: "distinct (map fst obj)" using inv by (simp add: group_inv_def)
  have keys: "set (map fst obj) = asset_type ` set S" using inv by (simp add: group_inv_def)
  have c: "\<And>k g. (k, g) \<in> set obj \<Longrightarrow> g_type g = k \<and>
        g_count g = Finite (int (length (filter (\<lambda>a. asset_type a = k) S)))"
    using inv by (auto simp: group_inv_def)
  have small: "length (filter P S) < 2 ^ 32" for P
    using len length_filter_le [of P S] by linarith
  show ?thesis
  proof (cases "?k \<in> set (map fst obj)")
    case True
    then have gs: "group_step a obj = update_group a obj"
      by (simp add: group_step_def has_property_def)
    have 1: "distinct (map fst (update_group a obj))" using d by (simp add: map_fst_update_group)
    have 2: "set (map fst (update_group a obj)) = asset_type ` set (S @ [a])"
      using keys True by (auto simp: map_fst_update_group)
    have 3: "g_type g = k \<and>
             g_count g = Finite (int (length (filter (\<lambda>a. asset_type a = k) (S @ [a]))))"
      if "(k, g) \<in> set (update_group a obj)" for k g
      using update_group_set [OF that] c count_exact [OF small]
      by (auto simp: add_to_group_def)
    show ?thesis unfolding gs group_inv_def using 1 2 3 by blast
  next
    case False
    have gs: "group_step a obj = obj @ [(?k, add_to_group a (new_group ?k))]"
      using False ty update_group_absent [OF False]
      by (simp add: group_step_def has_property_def update_group_def)
    have "\<forall>x \<in> set S. asset_type x \<noteq> ?k"
      using False keys by (metis imageI)
    then have none: "filter (\<lambda>x. asset_type x = ?k) S = []"
      by (simp add: filter_empty_conv)
    have 3: "g_type g = k \<and>
             g_count g = Finite (int (length (filter (\<lambda>a. asset_type a = k) (S @ [a]))))"
      if "(k, g) \<in> set (obj @ [(?k, add_to_group a (new_group ?k))])" for k g
    proof (cases "(k, g) \<in> set obj")
      case True
      then have "k \<noteq> ?k" using False by force
      then show ?thesis using c [OF True] by simp
    next
      case False
      with that have "k = ?k" "g = add_to_group a (new_group ?k)" by auto
      then show ?thesis using none by (simp add: add_to_group_def new_group_def to_double_exact)
    qed
    have 1: "distinct (map fst (obj @ [(?k, add_to_group a (new_group ?k))]))"
      using d False by simp
    have 2: "set (map fst (obj @ [(?k, add_to_group a (new_group ?k))]))
               = asset_type ` set (S @ [a])"
      using keys by simp
    show ?thesis unfolding gs group_inv_def using 1 2 3 by blast
  qed
qed

lemma group_inv_fold:
  "\<forall>a \<in> set S. asset_type a \<notin> set Object_prototype \<Longrightarrow> length S < 2 ^ 32 \<Longrightarrow>
     group_inv S (fold group_step S [])"
proof (induction S rule: rev_induct)
  case Nil
  then show ?case by (simp add: group_inv_def)
next
  case (snoc a S)
  then show ?case by (simp add: group_step_inv)
qed

lemma count_list_map_filter:
  "count_list (map f xs) k = length (filter (\<lambda>a. f a = k) xs)"
  by (induction xs) simp_all

lemma sum_of_counts:
  assumes "distinct ks" and "set ks = f ` set xs"
  shows "sum_list (map (\<lambda>k. length (filter (\<lambda>a. f a = k) xs)) ks) = length xs"
proof -
  have "length xs = sum_list (map (\<lambda>_. 1) (map f xs))" by (induction xs) simp_all
  also have "\<dots> = (\<Sum>k \<in> set (map f xs). count_list (map f xs) k * 1)"
    by (rule sum_list_map_eq_sum_count)
  also have "\<dots> = (\<Sum>k \<in> set ks. length (filter (\<lambda>a. f a = k) xs))"
    using assms(2) by (simp add: count_list_map_filter)
  also have "\<dots> = sum_list (map (\<lambda>k. length (filter (\<lambda>a. f a = k) xs)) ks)"
    using assms(1) by (simp add: sum_list_distinct_conv_sum_set)
  finally show ?thesis by simp
qed

lemma set_index_properties:
  "snd ` set (index_properties obj) = snd ` {p \<in> set obj. array_index (fst p) \<noteq> None}"
proof (induction obj)
  case Nil
  then show ?case by (simp add: index_properties_def map_filter_simps)
next
  case (Cons p obj)
  obtain k g where p: "p = (k, g)" by (cases p)
  have step: "index_properties (p # obj) =
                (case array_index k of None \<Rightarrow> index_properties obj
                 | Some i \<Rightarrow> (i, g) # index_properties obj)"
    by (simp add: index_properties_def map_filter_simps p split: option.splits)
  have sets: "{q \<in> set (p # obj). array_index (fst q) \<noteq> None} =
          (if array_index k = None then {} else {p}) \<union>
          {q \<in> set obj. array_index (fst q) \<noteq> None}"
    using p by auto
  show ?case
    unfolding step sets using Cons.IH p by (cases "array_index k") (simp_all add: image_Un)
qed

lemma set_Object_values: "set (Object_values obj) = snd ` set obj"
proof -
  have "set (Object_values obj) =
          snd ` {p \<in> set obj. array_index (fst p) \<noteq> None} \<union>
          snd ` {p \<in> set obj. array_index (fst p) = None}"
    unfolding Object_values_def
    by (simp add: set_index_properties case_prod_unfold)
  also have "\<dots> = snd ` set obj" by blast
  finally show ?thesis .
qed

text \<open>
  Apart from the inherited names, the loop does group every asset: over a list S of fewer
  than \<open>2^32\<close> assets (an array) none of whose types is a name that a plain object
  inherits, the object has one property for each type that occurs, its group counts the
  assets of that type, the counts add up to the number of assets, and
  \<^verbatim>\<open>Object.values\<close> lists exactly these groups.
\<close>

lemma grouping_apart_from_inherited_names:
  assumes "\<forall>a \<in> set S. asset_type a \<notin> set Object_prototype" and "length S < 2 ^ 32"
  shows "distinct (map fst (snd (calculate S)))"
    and "set (map fst (snd (calculate S))) = asset_type ` set S"
    and "\<forall>(k, g) \<in> set (snd (calculate S)). g_type g = k \<and>
           g_count g = Finite (int (length (filter (\<lambda>a. asset_type a = k) S)))"
    and "sum_list (map (\<lambda>k. length (filter (\<lambda>a. asset_type a = k) S))
           (map fst (snd (calculate S)))) = length S"
    and "set (Object_values (snd (calculate S))) = snd ` set (snd (calculate S))"
proof -
  have inv: "group_inv S (snd (calculate S))"
    using group_inv_fold [OF assms] by (simp add: calculate_eq)
  show 1: "distinct (map fst (snd (calculate S)))"
    and 2: "set (map fst (snd (calculate S))) = asset_type ` set S"
    and "\<forall>(k, g) \<in> set (snd (calculate S)). g_type g = k \<and>
           g_count g = Finite (int (length (filter (\<lambda>a. asset_type a = k) S)))"
    using inv by (simp_all add: group_inv_def)
  show "sum_list (map (\<lambda>k. length (filter (\<lambda>a. asset_type a = k) S))
           (map fst (snd (calculate S)))) = length S"
    using 1 2 by (rule sum_of_counts)
  show "set (Object_values (snd (calculate S))) = snd ` set (snd (calculate S))"
    by (rule set_Object_values)
qed

lemma no_asset_no_group:
  "calculate [] =
     (\<lparr>totalAssets = Finite 0, totalOpeningBalance = Finite 0, totalClosingBalance = Finite 0,
       totalPurchases = Finite 0, totalTransferIn = Finite 0, totalTransferOut = Finite 0,
       totalAssigned = Finite 0, totalExpended = Finite 0, totalAvailable = Finite 0\<rparr>, [])"
  "Object_values (snd (calculate [])) = []"
  by (simp_all add: calculate_def initial_summary_def Object_values_def index_properties_def
        map_filter_simps)

lemma calculate_ex_assets:
  "Object_values (snd (calculate ex_assets)) =
     [\<lparr>g_type = ''Vehicle'', g_count = Finite 1, g_openingBalance = Finite 10,
       g_closingBalance = Finite 12, g_assigned = Finite 3, g_available = Finite 9\<rparr>,
      \<lparr>g_type = ''Weapon'', g_count = Finite 1, g_openingBalance = Finite 5,
       g_closingBalance = Finite 5, g_assigned = Finite 2, g_available = Finite 3\<rparr>]"
  by (simp add: calculate_eq group_step_def update_group_def has_property_def
        Object_prototype_def new_group_def add_to_group_def to_double_exact
        Object_values_def index_properties_def map_filter_simps is_digit_def
        ex_assets_def mk_asset_def)

text \<open>
  C6. An asset whose type is \<^verbatim>\<open>constructor\<close>, a name that the plain object
  \<^verbatim>\<open>assetsByType\<close> inherits, is counted in \<^verbatim>\<open>totalAssets\<close> and enters no group: of
  the two matched assets only the vehicle is grouped, and the counts add up to 1.
\<close>

theorem inherited_type_not_grouped:
  "map asset_type ex_inherited_assets = [''Vehicle'', ''constructor'']
   \<and> totalAssets (fst (calculate ex_inherited_assets)) = Finite 2
   \<and> Object_values (snd (calculate ex_inherited_assets)) =
       [\<lparr>g_type = ''Vehicle'', g_count = Finite 1, g_openingBalance = Finite 10,
         g_closingBalance = Finite 12, g_assigned = Finite 3, g_available = Finite 9\<rparr>]"
  by (simp add: calculate_eq add_to_summary_def initial_summary_def group_step_def
        update_group_def has_property_def Object_prototype_def new_group_def add_to_group_def
        to_double_exact Object_values_def index_properties_def map_filter_simps is_digit_def
        ex_inherited_assets_def mk_asset_def)

section \<open>The dashboard response\<close>

lemma recent_length: "length (recent f xs) \<le> 5"
  by (simp add: recent_def)

lemma recent_set: "set (recent f xs) \<subseteq> set xs"
  using set_take_subset [of 5 "sort_key (\<lambda>x. - f x) xs"] by (simp add: recent_def)

lemma recent_filter: "x \<in> set (recent f (filter P xs)) \<Longrightarrow> P x \<and> x \<in> set xs"
  using recent_set [of f "filter P xs"] by auto

lemma recent_sorted: "sorted_wrt (\<lambda>x y. f y \<le> f x) (recent f xs)"
proof -
  have "sorted (map (\<lambda>x. - f x) (sort_key (\<lambda>x. - f x) xs))" by (rule sorted_sort_key)
  then have "sorted_wrt (\<lambda>x y. f y \<le> f x) (sort_key (\<lambda>x. - f x) xs)"
    by (simp add: sorted_map)
  then show ?thesis unfolding recent_def by (rule sorted_wrt_take)
qed

lemma recent_view_sorted:
  assumes "\<And>x. g (view x) = f x"
  shows "sorted_wrt (\<lambda>x y. g y \<le> g x) (map view (recent f xs))"
  using recent_sorted [of f xs] by (simp add: sorted_wrt_map assms)

lemma handler_Inr_eq:
  assumes "dashboard_handler parse st u q = Inr r"
  shows "r =
     \<lparr>r_summary = fst (calculate (filter (asset_matches (assetMatch u q)) (asset_docs st))),
      assetsByType =
        Object_values (snd (calculate (filter (asset_matches (assetMatch u q)) (asset_docs st)))),
      recentTransfers =
        map transfer_view.truncate
          (recent t_createdAt
             (filter (transfer_matches (transferMatch parse u q)) (transfer_docs st))),
      recentPurchases =
        map purchase_view.truncate
          (recent purchaseDate
             (filter (\<lambda>p. record_matches (purchaseMatch parse u q)
                            (p_createdAt p) (p_base p) (p_assetType p))
                (purchase_docs st))),
      recentAssignments =
        map assignment_view.truncate
          (recent startDate
             (filter (\<lambda>x. record_matches (assignmentMatch parse u q)
                            (as_createdAt x) (as_base x) (as_assetType x))
                (assignment_docs st))),
      recentExpenditures =
        map expenditure_view.truncate
          (recent expenditureDate
             (filter (\<lambda>x. record_matches (expenditureMatch parse u q)
                            (ex_createdAt x) (ex_base x) (ex_assetType x))
                (expenditure_docs st)))\<rparr>"
proof (cases "castable (dateMatch parse q)")
  case True
  with assms show ?thesis
    unfolding dashboard_handler_def Let_def split_beta by simp
next
  case False
  with assms show ?thesis
    unfolding dashboard_handler_def Let_def split_beta by simp
qed

lemma handler_Inr:
  assumes "dashboard_handler parse st u q = Inr r"
  shows "r_summary r = fst (calculate (filter (asset_matches (assetMatch u q)) (asset_docs st)))"
    and "assetsByType r =
           Object_values (snd (calculate (filter (asset_matches (assetMatch u q)) (asset_docs st))))"
    and "recentTransfers r =
           map transfer_view.truncate
             (recent t_createdAt
                (filter (transfer_matches (transferMatch parse u q)) (transfer_docs st)))"
    and "recentPurchases r =
           map purchase_view.truncate
             (recent purchaseDate
                (filter (\<lambda>p. record_matches (purchaseMatch parse u q)
                               (p_createdAt p) (p_base p) (p_assetType p))
                   (purchase_docs st)))"
    and "recentAssignments r =
           map assignment_view.truncate
             (recent startDate
                (filter (\<lambda>x. record_matches (assignmentMatch parse u q)
                               (as_createdAt x) (as_base x) (as_assetType x))
                   (assignment_docs st)))"
    and "recentExpenditures r =
           map expenditure_view.truncate
             (recent expenditureDate
                (filter (\<lambda>x. record_matches (expenditureMatch parse u q)
                               (ex_createdAt x) (ex_base x) (ex_assetType x))
                   (expenditure_docs st)))"
  by (simp_all add: handler_Inr_eq [OF assms])

lemma transfer_view_fields:
  "t_createdAt (transfer_view.truncate t) = t_createdAt t"
  "fromBase (transfer_view.truncate t) = fromBase t"
  "toBase (transfer_view.truncate t) = toBase t"
  by (simp_all add: transfer_view.truncate_def)

lemma purchase_view_fields:
  "purchaseDate (purchase_view.truncate p) = purchaseDate p"
  "p_base (purchase_view.truncate p) = p_base p"
  by (simp_all add: purchase_view.truncate_def)

lemma assignment_view_fields:
  "startDate (assignment_view.truncate x) = startDate x"
  "as_base (assignment_view.truncate x) = as_base x"
  by (simp_all add: assignment_view.truncate_def)

lemma expenditure_view_fields:
  "expenditureDate (expenditure_view.truncate x) = expenditureDate x"
  "ex_base (expenditure_view.truncate x) = ex_base x"
  by (simp_all add: expenditure_view.truncate_def)

text \<open>
  C7. When the request succeeds and B is its effective base (the requested base when one
  is given, else the assigned base of a BaseCommander), \<^verbatim>\<open>recentTransfers\<close> has at
  most five transfers, each from B or to B, newest first by \<^verbatim>\<open>createdAt\<close>; the
  other three lists have at most five records each, in descending order of
  \<^verbatim>\<open>purchaseDate\<close>, \<^verbatim>\<open>startDate\<close> and \<^verbatim>\<open>expenditureDate\<close>.
\<close>

theorem recent_lists:
  assumes r: "dashboard_handler parse st u q = Inr r"
    and B: "(truthy (q_base q) \<and> q_base q = Some B) \<or>
            (\<not> truthy (q_base q) \<and> role u = BaseCommander \<and> assignedBase u = Some B)"
  shows "length (recentTransfers r) \<le> 5
       \<and> (\<forall>t \<in> set (recentTransfers r). fromBase t = B \<or> toBase t = B)
       \<and> sorted_wrt (\<lambda>x y. t_createdAt y \<le> t_createdAt x) (recentTransfers r)
       \<and> length (recentPurchases r) \<le> 5
       \<and> sorted_wrt (\<lambda>x y. purchaseDate y \<le> purchaseDate x) (recentPurchases r)
       \<and> length (recentAssignments r) \<le> 5
       \<and> sorted_wrt (\<lambda>x y. startDate y \<le> startDate x) (recentAssignments r)
       \<and> length (recentExpenditures r) \<le> 5
       \<and> sorted_wrt (\<lambda>x y. expenditureDate y \<le> expenditureDate x) (recentExpenditures r)"
proof -
  note h = handler_Inr [OF r]
  have tm: "tm_or (transferMatch parse u q) = Some (Some B)"
    using B by (elim disjE conjE) (simp_all add: transferMatch_def)
  have 1: "fromBase t = B \<or> toBase t = B" if "t \<in> set (recentTransfers r)" for t
  proof -
    from that have "t \<in> transfer_view.truncate `
        set (recent t_createdAt
               (filter (transfer_matches (transferMatch parse u q)) (transfer_docs st)))"
      unfolding h(3) by simp
    then obtain d where d: "t = transfer_view.truncate d"
      "d \<in> set (recent t_createdAt
                (filter (transfer_matches (transferMatch parse u q)) (transfer_docs st)))"
      by (rule imageE)
    from recent_filter [OF d(2)] have "transfer_matches (transferMatch parse u q) d" ..
    then have "B = fromBase d \<or> B = toBase d"
      by (simp add: transfer_matches_def tm)
    then show ?thesis unfolding d(1) transfer_view_fields by blast
  qed
  have 2: "length (recentTransfers r) \<le> 5" "length (recentPurchases r) \<le> 5"
    "length (recentAssignments r) \<le> 5" "length (recentExpenditures r) \<le> 5"
    unfolding h by (simp_all add: recent_length)
  have 3: "sorted_wrt (\<lambda>x y. t_createdAt y \<le> t_createdAt x) (recentTransfers r)"
    unfolding h(3) by (rule recent_view_sorted) (simp add: transfer_view_fields)
  have 4: "sorted_wrt (\<lambda>x y. purchaseDate y \<le> purchaseDate x) (recentPurchases r)"
    unfolding h(4) by (rule recent_view_sorted) (simp add: purchase_view_fields)
  have 5: "sorted_wrt (\<lambda>x y. startDate y \<le> startDate x) (recentAssignments r)"
    unfolding h(5) by (rule recent_view_sorted) (simp add: assignment_view_fields)
  have 6: "sorted_wrt (\<lambda>x y. expenditureDate y \<le> expenditureDate x) (recentExpenditures r)"
    unfolding h(6) by (rule recent_view_sorted) (simp add: expenditure_view_fields)
  from 1 have 7: "\<forall>t \<in> set (recentTransfers r). fromBase t = B \<or> toBase t = B" by simp
  from 2 3 4 5 6 7 show ?thesis by simp
qed


lemma route_Inr:
  assumes "dashboard_route parse st u q = Inr r"
  shows "dashboard_handler parse st u q = Inr r"
    and "role u = BaseCommander \<Longrightarrow> q_base q = None \<or> q_base q = assignedBase u"
  using assms
  by (simp_all add: dashboard_route_def scopeToBase_def split: sum.splits if_splits option.splits)

lemma own_assets_eq:
  assumes "role u = BaseCommander"
  shows "filter (asset_matches (assetMatch u q)) (asset_docs st) = own_assets u q st"
proof -
  have m: "asset_matches (assetMatch u q) a \<longleftrightarrow>
          (Some (asset_base a) = assignedBase u \<and>
           (truthy (q_assetType q) \<longrightarrow> Some (asset_type a) = q_assetType q))" for a
    using assms
    by (cases "q_assetType q") (auto simp: asset_matches_def assetMatch_def Let_def)
  show ?thesis unfolding own_assets_def by (rule filter_cong) (simp_all add: m)
qed

lemma effective_base:
  assumes "role u = BaseCommander" and "q_base q = None \<or> q_base q = assignedBase u"
  shows "tm_or (transferMatch parse u q) = Some (assignedBase u)"
    and "rm_base (purchaseMatch parse u q) = Some (assignedBase u)"
    and "rm_base (assignmentMatch parse u q) = Some (assignedBase u)"
    and "rm_base (expenditureMatch parse u q) = Some (assignedBase u)"
  using assms
  by (auto simp: transferMatch_def purchaseMatch_def assignmentMatch_def expenditureMatch_def)

lemma recent_view_filter:
  assumes "v \<in> set (map view (recent f (filter P xs)))"
  shows "\<exists>d \<in> set xs. v = view d \<and> P d"
proof -
  from assms obtain d where d: "v = view d" "d \<in> set (recent f (filter P xs))" by auto
  from recent_filter [OF d(2)] d(1) show ?thesis by blast
qed

text \<open>
  C1. For a BaseCommander, a request for a base other than the assigned one is answered
  Forbidden, and whenever the route answers with a dashboard every part of it is scoped to
  the assigned base: the summary and the groups are computed from the Assets of that base,
  every recent transfer leaves or reaches it, and every recent purchase, assignment and
  expenditure belongs to it.
\<close>

theorem base_commander_scope:
  assumes bc: "role u = BaseCommander"
  shows "(\<forall>X. q_base q = Some X \<and> Some X \<noteq> assignedBase u \<longrightarrow>
             dashboard_route parse st u q = Inl Forbidden)
       \<and> (\<forall>r. dashboard_route parse st u q = Inr r \<longrightarrow>
             r_summary r = fst (calculate (own_assets u q st))
           \<and> assetsByType r = Object_values (snd (calculate (own_assets u q st)))
           \<and> (\<forall>t \<in> set (recentTransfers r).
                 Some (fromBase t) = assignedBase u \<or> Some (toBase t) = assignedBase u)
           \<and> (\<forall>p \<in> set (recentPurchases r). Some (p_base p) = assignedBase u)
           \<and> (\<forall>x \<in> set (recentAssignments r). Some (as_base x) = assignedBase u)
           \<and> (\<forall>x \<in> set (recentExpenditures r). Some (ex_base x) = assignedBase u))"
proof (intro conjI allI impI)
  fix X assume "q_base q = Some X \<and> Some X \<noteq> assignedBase u"
  then show "dashboard_route parse st u q = Inl Forbidden"
    using bc by (simp add: dashboard_route_def scopeToBase_def)
next
  fix r assume r: "dashboard_route parse st u q = Inr r"
  note h = handler_Inr [OF route_Inr(1) [OF r]]
  note e = effective_base [OF bc route_Inr(2) [OF r bc]]
  show "r_summary r = fst (calculate (own_assets u q st))"
    unfolding h(1) own_assets_eq [OF bc] ..
  show "assetsByType r = Object_values (snd (calculate (own_assets u q st)))"
    unfolding h(2) own_assets_eq [OF bc] ..
  show "\<forall>t \<in> set (recentTransfers r).
          Some (fromBase t) = assignedBase u \<or> Some (toBase t) = assignedBase u"
  proof
    fix t assume "t \<in> set (recentTransfers r)"
    from recent_view_filter [OF this [unfolded h(3)]]
    obtain d :: transfer where "t = transfer_view.truncate d" "transfer_matches (transferMatch parse u q) d"
      by blast
    then show "Some (fromBase t) = assignedBase u \<or> Some (toBase t) = assignedBase u"
      by (auto simp: transfer_matches_def e(1) transfer_view_fields)
  qed
  show "\<forall>p \<in> set (recentPurchases r). Some (p_base p) = assignedBase u"
  proof
    fix p assume "p \<in> set (recentPurchases r)"
    from recent_view_filter [OF this [unfolded h(4)]]
    obtain d :: purchase where "p = purchase_view.truncate d"
      "record_matches (purchaseMatch parse u q) (p_createdAt d) (p_base d) (p_assetType d)"
      by auto
    then show "Some (p_base p) = assignedBase u"
      by (simp add: record_matches_def e(2) purchase_view_fields)
  qed
  show "\<forall>x \<in> set (recentAssignments r). Some (as_base x) = assignedBase u"
  proof
    fix x assume "x \<in> set (recentAssignments r)"
    from recent_view_filter [OF this [unfolded h(5)]]
    obtain d :: assignment where "x = assignment_view.truncate d"
      "record_matches (assignmentMatch parse u q) (as_createdAt d) (as_base d) (as_assetType d)"
      by auto
    then show "Some (as_base x) = assignedBase u"
      by (simp add: record_matches_def e(3) assignment_view_fields)
  qed
  show "\<forall>x \<in> set (recentExpenditures r). Some (ex_base x) = assignedBase u"
  proof
    fix x assume "x \<in> set (recentExpenditures r)"
    from recent_view_filter [OF this [unfolded h(6)]]
    obtain d :: expenditure where "x = expenditure_view.truncate d"
      "record_matches (expenditureMatch parse u q) (ex_createdAt d) (ex_base d) (ex_assetType d)"
      by auto
    then show "Some (ex_base x) = assignedBase u"
      by (simp add: record_matches_def e(4) expenditure_view_fields)
  qed
qed


lemma handler_total:
  "castable (dateMatch parse q) \<Longrightarrow> \<exists>r. dashboard_handler parse st u q = Inr r"
  by (simp add: dashboard_handler_def Let_def split_beta)

theorem recent_lists_witness:
  "truthy (q_base (ex_query (Some ''Base-A'') None))
   \<and> (\<exists>r. dashboard_handler ex_parse ex_store ex_plain_user (ex_query (Some ''Base-A'') None)
             = Inr r
          \<and> length (recentTransfers r) \<le> 5
          \<and> (\<forall>t \<in> set (recentTransfers r). fromBase t = ''Base-A'' \<or> toBase t = ''Base-A'')
          \<and> sorted_wrt (\<lambda>x y. t_createdAt y \<le> t_createdAt x) (recentTransfers r))"
proof -
  let ?q = "ex_query (Some ''Base-A'') None"
  have c: "castable (dateMatch ex_parse ?q)"
    by (simp add: castable_def dateMatch_def ex_query_def)
  from handler_total [OF c] obtain r
    where r: "dashboard_handler ex_parse ex_store ex_plain_user ?q = Inr r" by blast
  have B: "(truthy (q_base ?q) \<and> q_base ?q = Some ''Base-A'') \<or>
           (\<not> truthy (q_base ?q) \<and> role ex_plain_user = BaseCommander
              \<and> assignedBase ex_plain_user = Some ''Base-A'')"
    by (simp add: ex_query_def)
  have t: "truthy (q_base ?q)" by (simp add: ex_query_def)
  show ?thesis using recent_lists [OF r B] r t by blast
qed

lemma recent_transfers_example:
  "map_sum id (\<lambda>r. map t_createdAt (recentTransfers r))
     (dashboard_handler ex_parse ex_store ex_plain_user (ex_query (Some ''Base-A'') None))
   = Inr [1600, 1500, 1400, 1300, 1200]"
proof -
  let ?q = "ex_query (Some ''Base-A'') None"
  have "castable (dateMatch ex_parse ?q)"
    by (simp add: castable_def dateMatch_def ex_query_def)
  from handler_total [OF this] obtain r
    where r: "dashboard_handler ex_parse ex_store ex_plain_user ?q = Inr r" by blast
  have docs: "transfer_docs ex_store =
        [mk_transfer ''Base-A'' ''Base-B'' 1100, mk_transfer ''Base-B'' ''Base-A'' 1300,
         mk_transfer ''Base-B'' ''Base-C'' 1700, mk_transfer ''Base-A'' ''Base-C'' 1200,
         mk_transfer ''Base-C'' ''Base-A'' 1600, mk_transfer ''Base-A'' ''Base-B'' 1500,
         mk_transfer ''Base-A'' ''Base-C'' 1400]"
    by (simp add: ex_store_def)
  have "map t_createdAt (recentTransfers r) = [1600, 1500, 1400, 1300, 1200]"
    unfolding handler_Inr(3) [OF r] docs
    by (simp add: dateMatch_def ex_query_def transferMatch_def transfer_matches_def
          date_matches_def recent_def mk_transfer_def transfer_view.truncate_def)
  then show ?thesis by (simp add: r)
qed

theorem base_commander_scope_witness:
  "role ex_user = BaseCommander
   \<and> dashboard_route ex_parse ex_store ex_user (ex_query (Some ''Base-B'') None) = Inl Forbidden
   \<and> (\<exists>r. dashboard_route ex_parse ex_store ex_user (ex_query None None) = Inr r
          \<and> r_summary r = fst (calculate ex_assets)
          \<and> (\<forall>p \<in> set (recentPurchases r). p_base p = ''Base-A''))"
proof -
  have bc: "role ex_user = BaseCommander" by (simp add: ex_user_def)
  have ab: "assignedBase ex_user = Some ''Base-A''" by (simp add: ex_user_def)
  have 1: "dashboard_route ex_parse ex_store ex_user (ex_query (Some ''Base-B'') None)
             = Inl Forbidden"
    using base_commander_scope [OF bc, of "ex_query (Some ''Base-B'') None" ex_parse ex_store]
    by (simp add: ex_query_def ab)
  have "\<exists>r. dashboard_handler ex_parse ex_store ex_user (ex_query None None) = Inr r"
    by (rule handler_total) (simp add: castable_def dateMatch_def ex_query_def)
  then obtain r where r: "dashboard_route ex_parse ex_store ex_user (ex_query None None) = Inr r"
    by (auto simp: dashboard_route_def scopeToBase_def ex_query_def bc)
  have own: "own_assets ex_user (ex_query None None) ex_store = ex_assets"
    by (simp add: own_assets_def ex_store_def ex_assets_def mk_asset_def ex_query_def ab)
  from base_commander_scope [OF bc, of "ex_query None None" ex_parse ex_store] r
  have "r_summary r = fst (calculate (own_assets ex_user (ex_query None None) ex_store))"
    and "\<forall>p \<in> set (recentPurchases r). Some (p_base p) = assignedBase ex_user"
    by blast+
  then show ?thesis using bc 1 r by (auto simp: own ab)
qed

text \<open>
  The refusal is the middleware's: the handler by itself filters the recent lists by the
  requested base.
\<close>

lemma handler_alone_uses_requested_base:
  "map_sum id (\<lambda>r. map p_base (recentPurchases r))
     (dashboard_handler ex_parse ex_store ex_user (ex_query (Some ''Base-B'') None))
   = Inr [''Base-B'']"
proof -
  let ?q = "ex_query (Some ''Base-B'') None"
  have "castable (dateMatch ex_parse ?q)"
    by (simp add: castable_def dateMatch_def ex_query_def)
  from handler_total [OF this] obtain r
    where r: "dashboard_handler ex_parse ex_store ex_user ?q = Inr r" by blast
  have docs: "purchase_docs ex_store =
                [mk_purchase ''Base-A'' 1100, mk_purchase ''Base-B'' 1200,
                 mk_purchase ''Base-A'' 1300]"
    by (simp add: ex_store_def)
  have "map p_base (recentPurchases r) = [''Base-B'']"
    unfolding handler_Inr(4) [OF r] docs
    by (simp add: dateMatch_def ex_query_def purchaseMatch_def record_matches_def
          date_matches_def recent_def mk_purchase_def purchase_view.truncate_def)
  then show ?thesis by (simp add: r)
qed

text \<open>
  C4, as amended. The summary and the groups are computed from the Assets matched by base
  and asset type only: they are the same for every date range. The date range restricts
  the four recent lists, whose records all have a \<^verbatim>\<open>createdAt\<close> inside it.
\<close>

theorem summary_ignores_dates:
  assumes r: "dashboard_handler parse st u q = Inr r"
  shows "(\<forall>sd ed r'. dashboard_handler parse st u (q\<lparr>q_startDate := sd, q_endDate := ed\<rparr>) = Inr r'
            \<longrightarrow> r_summary r' = r_summary r \<and> assetsByType r' = assetsByType r)
       \<and> r_summary r = fst (calculate (filter (asset_matches (assetMatch u q)) (asset_docs st)))
       \<and> (\<forall>t \<in> set (recentTransfers r). date_matches (dateMatch parse q) (t_createdAt t))
       \<and> (\<forall>p \<in> set (recentPurchases r). \<exists>d \<in> set (purchase_docs st).
             p = purchase_view.truncate d \<and> date_matches (dateMatch parse q) (p_createdAt d))
       \<and> (\<forall>x \<in> set (recentAssignments r). \<exists>d \<in> set (assignment_docs st).
             x = assignment_view.truncate d \<and> date_matches (dateMatch parse q) (as_createdAt d))
       \<and> (\<forall>x \<in> set (recentExpenditures r). \<exists>d \<in> set (expenditure_docs st).
             x = expenditure_view.truncate d \<and> date_matches (dateMatch parse q) (ex_createdAt d))"
proof (intro conjI allI impI ballI)
  note h = handler_Inr [OF r]
  have am: "assetMatch u (q\<lparr>q_startDate := sd, q_endDate := ed\<rparr>) = assetMatch u q" for sd ed
    by (simp add: assetMatch_def)
  { fix sd ed r'
    assume r': "dashboard_handler parse st u (q\<lparr>q_startDate := sd, q_endDate := ed\<rparr>) = Inr r'"
    note h' = handler_Inr [OF r']
    show "r_summary r' = r_summary r" unfolding h(1) h'(1) am ..
    show "assetsByType r' = assetsByType r" unfolding h(2) h'(2) am .. }
  show "r_summary r = fst (calculate (filter (asset_matches (assetMatch u q)) (asset_docs st)))"
    by (rule h(1))
  { fix t assume "t \<in> set (recentTransfers r)"
    from recent_view_filter [OF this [unfolded h(3)]]
    obtain d :: transfer where "t = transfer_view.truncate d"
      "transfer_matches (transferMatch parse u q) d" by auto
    then show "date_matches (dateMatch parse q) (t_createdAt t)"
      by (simp add: transfer_matches_def transferMatch_def transfer_view_fields) }
  { fix p assume "p \<in> set (recentPurchases r)"
    from recent_view_filter [OF this [unfolded h(4)]]
    show "\<exists>d \<in> set (purchase_docs st).
             p = purchase_view.truncate d \<and> date_matches (dateMatch parse q) (p_createdAt d)"
      by (auto simp: record_matches_def purchaseMatch_def) }
  { fix x assume "x \<in> set (recentAssignments r)"
    from recent_view_filter [OF this [unfolded h(5)]]
    show "\<exists>d \<in> set (assignment_docs st).
             x = assignment_view.truncate d \<and> date_matches (dateMatch parse q) (as_createdAt d)"
      by (auto simp: record_matches_def assignmentMatch_def) }
  { fix x assume "x \<in> set (recentExpenditures r)"
    from recent_view_filter [OF this [unfolded h(6)]]
    show "\<exists>d \<in> set (expenditure_docs st).
             x = expenditure_view.truncate d \<and> date_matches (dateMatch parse q) (ex_createdAt d)"
      by (auto simp: record_matches_def expenditureMatch_def) }
qed

text \<open>
  C4 as stated fails: with a start date of 1000 and every Asset created at 500, all three
  Assets still contribute to the summary.
\<close>

theorem summary_counts_assets_outside_range:
  "dateMatch ex_parse (ex_query None (Some ''2024-06-01''))
     = Some \<lparr>gte = Some (Some 1000), lte = None\<rparr>
   \<and> map asset_createdAt (asset_docs ex_store) = [500, 500, 500]
   \<and> map_sum id r_summary
        (dashboard_handler ex_parse ex_store ex_plain_user (ex_query None (Some ''2024-06-01'')))
      = Inr \<lparr>totalAssets = Finite 3, totalOpeningBalance = Finite 19,
             totalClosingBalance = Finite 21, totalPurchases = Finite 2,
             totalTransferIn = Finite 0, totalTransferOut = Finite 0,
             totalAssigned = Finite 6, totalExpended = Finite 0,
             totalAvailable = Finite 15\<rparr>"
proof -
  let ?q = "ex_query None (Some ''2024-06-01'')"
  have dm: "dateMatch ex_parse ?q = Some \<lparr>gte = Some (Some 1000), lte = None\<rparr>"
    by (simp add: dateMatch_def ex_query_def ex_parse_def)
  have "castable (dateMatch ex_parse ?q)" unfolding dm by (simp add: castable_def)
  from handler_total [OF this] obtain r
    where r: "dashboard_handler ex_parse ex_store ex_plain_user ?q = Inr r" by blast
  have docs: "asset_docs ex_store =
                [mk_asset ''Vehicle'' ''Base-A'' 10 12 3 9, mk_asset ''Weapon'' ''Base-A'' 5 5 2 3,
                 mk_asset ''Vehicle'' ''Base-B'' 4 4 1 3]"
    by (simp add: ex_store_def ex_assets_def)
  have created: "map asset_createdAt (asset_docs ex_store) = [500, 500, 500]"
    unfolding docs by (simp add: mk_asset_def)
  have "r_summary r =
          \<lparr>totalAssets = Finite 3, totalOpeningBalance = Finite 19,
           totalClosingBalance = Finite 21, totalPurchases = Finite 2,
           totalTransferIn = Finite 0, totalTransferOut = Finite 0,
           totalAssigned = Finite 6, totalExpended = Finite 0,
           totalAvailable = Finite 15\<rparr>"
    unfolding handler_Inr(1) [OF r] docs calculate_eq
    by (simp add: assetMatch_def asset_matches_def ex_query_def ex_plain_user_def
          add_to_summary_def initial_summary_def mk_asset_def to_double_exact)
  then show ?thesis using dm created by (simp add: r)
qed

theorem summary_ignores_dates_witness:
  "\<exists>r r'. dashboard_handler ex_parse ex_store ex_plain_user (ex_query None (Some ''2024-06-01''))
             = Inr r
        \<and> dashboard_handler ex_parse ex_store ex_plain_user (ex_query None None) = Inr r'
        \<and> r_summary r' = r_summary r \<and> assetsByType r' = assetsByType r
        \<and> (\<forall>t \<in> set (recentTransfers r). 1000 \<le> t_createdAt t)"
proof -
  let ?q = "ex_query None (Some ''2024-06-01'')"
  have dm: "dateMatch ex_parse ?q = Some \<lparr>gte = Some (Some 1000), lte = None\<rparr>"
    by (simp add: dateMatch_def ex_query_def ex_parse_def)
  have "castable (dateMatch ex_parse ?q)" unfolding dm by (simp add: castable_def)
  from handler_total [OF this] obtain r
    where r: "dashboard_handler ex_parse ex_store ex_plain_user ?q = Inr r" by blast
  have "castable (dateMatch ex_parse (ex_query None None))"
    by (simp add: castable_def dateMatch_def ex_query_def)
  from handler_total [OF this] obtain r'
    where r': "dashboard_handler ex_parse ex_store ex_plain_user (ex_query None None) = Inr r'"
    by blast
  have q: "?q\<lparr>q_startDate := None, q_endDate := None\<rparr> = ex_query None None"
    by (simp add: ex_query_def)
  from summary_ignores_dates [OF r] r' q
  have 1: "r_summary r' = r_summary r \<and> assetsByType r' = assetsByType r" by metis
  from summary_ignores_dates [OF r]
  have "\<forall>t \<in> set (recentTransfers r). date_matches (dateMatch ex_parse ?q) (t_createdAt t)"
    by blast
  then have 2: "\<forall>t \<in> set (recentTransfers r). 1000 \<le> t_createdAt t"
    unfolding dm by (simp add: date_matches_def)
  show ?thesis using r r' 1 2 by blast
qed

end
